theory Spec2Isabelle
  imports Complex_Main
begin

section \<open>Time\<close>

text \<open>
  A \<^verbatim>\<open>time.Time\<close> is its number of nanoseconds since the Unix epoch, a
  \<^verbatim>\<open>time.Duration\<close> is an \<^verbatim>\<open>int64\<close> count of nanoseconds.
  \<^verbatim>\<open>float64\<close> values are idealised as real numbers: rounding, infinities and
  NaN are not modelled.
\<close>

type_synonym time = int
type_synonym duration = int

definition Millisecond :: duration where
  "Millisecond = 1000000"

definition Second :: duration where
  "Second = 1000000000"

definition minDuration :: duration where
  "minDuration = - (2 ^ 63)"

definition maxDuration :: duration where
  "maxDuration = 2 ^ 63 - 1"

definition Sub :: "time \<Rightarrow> time \<Rightarrow> duration" where
  \<comment> \<open>\<^verbatim>\<open>t.Sub(u)\<close>: the difference, saturated to the range of a Duration.\<close>
  "Sub t u =
     (let d = t - u
      in if d > maxDuration then maxDuration
         else if d < minDuration then minDuration
         else d)"

definition Seconds :: "duration \<Rightarrow> real" where
  "Seconds d = real_of_int d / 1000000000"

definition MaxFloat64 :: real where
  "MaxFloat64 = (2 ^ 53 - 1) * 2 ^ 971"

section \<open>Errors\<close>

datatype error =
    ErrSyntax
  | ErrRange
  | ErrNotFound string
  | ErrRedis string
  | ErrIO string

section \<open>strconv\<close>

text \<open>
  \<^verbatim>\<open>strconv.ParseInt(s, 10, 64)\<close>: an optional sign, then at least one decimal
  digit and nothing else (underscores are accepted for base 0 only); a value outside
  the \<^verbatim>\<open>int64\<close> range is an error.
\<close>

definition isDigit :: "char \<Rightarrow> bool" where
  "isDigit c = (48 \<le> (of_char c :: int) \<and> (of_char c :: int) \<le> 57)"

definition digitVal :: "char \<Rightarrow> int" where
  "digitVal c = (of_char c :: int) - 48"

fun ParseUint_loop :: "string \<Rightarrow> int \<Rightarrow> error + int" where
  "ParseUint_loop [] n = Inr n"
| "ParseUint_loop (c # cs) n =
     (if \<not> isDigit c then Inl ErrSyntax
      else let n1 = n * 10 + digitVal c
           in if n1 \<ge> 2 ^ 64 then Inl ErrRange else ParseUint_loop cs n1)"

definition ParseUint :: "string \<Rightarrow> error + int" where
  "ParseUint s = (if s = [] then Inl ErrSyntax else ParseUint_loop s 0)"

definition ParseInt :: "string \<Rightarrow> error + int" where
  "ParseInt s =
     (if s = [] then Inl ErrSyntax
      else let neg = (hd s = CHR ''-'');
               s1 = (if hd s = CHR ''+'' \<or> hd s = CHR ''-'' then tl s else s)
           in case ParseUint s1 of
                Inl e \<Rightarrow> Inl e
              | Inr un \<Rightarrow>
                  if \<not> neg \<and> un \<ge> 2 ^ 63 then Inl ErrRange
                  else if neg \<and> un > 2 ^ 63 then Inl ErrRange
                  else Inr (if neg then - un else un))"

text \<open>
  \<^verbatim>\<open>strconv.ParseFloat(s, 64)\<close>, on the plain decimal spelling
  \<^verbatim>\<open>[+-]digits[.digits]\<close>. That is the spelling under which the Redis client
  sends a \<^verbatim>\<open>float64\<close> argument, so it is what \<^verbatim>\<open>Set\<close> stores. Exponents,
  hexadecimal, infinities and NaN are not modelled: they are rejected here.
\<close>

fun decimalDigits :: "string \<Rightarrow> int \<Rightarrow> int option" where
  "decimalDigits [] n = Some n"
| "decimalDigits (c # cs) n =
     (if isDigit c then decimalDigits cs (n * 10 + digitVal c) else None)"

definition ParseFloat :: "string \<Rightarrow> error + real" where
  "ParseFloat s =
     (if s = [] then Inl ErrSyntax
      else let neg = (hd s = CHR ''-'');
               s1 = (if hd s = CHR ''+'' \<or> hd s = CHR ''-'' then tl s else s);
               ip = takeWhile (\<lambda>c. c \<noteq> CHR ''.'') s1;
               rest = dropWhile (\<lambda>c. c \<noteq> CHR ''.'') s1;
               fp = (if rest = [] then [] else tl rest)
           in if ip = [] \<and> fp = [] then Inl ErrSyntax
              else case (decimalDigits ip 0, decimalDigits fp 0) of
                     (Some i, Some f) \<Rightarrow>
                       (let v = real_of_int i + real_of_int f / 10 ^ length fp
                        in Inr (if neg then - v else v))
                   | _ \<Rightarrow> Inl ErrSyntax)"

section \<open>Storage\<close>

record bucketState =
  Tokens :: real
  LastAccess :: time

record MemoryStorage =
  data :: "string \<rightharpoonup> bucketState"

text \<open>
  The Redis server is the environment. The client keeps the commands it has sent, and
  the answers the server will give, in order; a server that answers nothing more makes
  every further command fail.
\<close>

datatype redis_cmd =
    EvalGet string
  | EvalSet string real int
  | Del string

datatype redis_result =
    RedisErr string
  | RedisNil
  | RedisValues "string list"
  | RedisInt int

record RedisClient =
  sent :: "redis_cmd list"
  replies :: "redis_result list"

definition Do :: "redis_cmd \<Rightarrow> RedisClient \<Rightarrow> redis_result \<times> RedisClient" where
  "Do cmd c =
     (case replies c of
        [] \<Rightarrow> (RedisErr ''i/o timeout'', c\<lparr>sent := sent c @ [cmd]\<rparr>)
      | r # rs \<Rightarrow> (r, c\<lparr>sent := sent c @ [cmd], replies := rs\<rparr>))"

record RedisStorage =
  client :: RedisClient
  keyPrefix :: string
  healthyFlag :: bool

datatype Storage = Memory MemoryStorage | Redis RedisStorage

text \<open>
  The world a bucket runs in: the clock and the one storage backend of the handler
  (\<^verbatim>\<open>rl.storage\<close>, \<open>None\<close> for a nil interface). Every bucket is created with
  \<^verbatim>\<open>rl.storage\<close>, so a bucket's \<^verbatim>\<open>storage\<close> field is this object. Time passes in
  \<^verbatim>\<open>time.Sleep\<close> only. \<open>allowCalls\<close> is instrumentation, not a variable of the
  program: it counts the calls of \<^verbatim>\<open>Allow\<close>.
\<close>

record World =
  clock :: time
  storage :: "Storage option"
  allowCalls :: nat

definition Sleep :: "duration \<Rightarrow> World \<Rightarrow> World" where
  "Sleep d w = (if d \<le> 0 then w else w\<lparr>clock := clock w + d\<rparr>)"

definition Since :: "World \<Rightarrow> time \<Rightarrow> duration" where
  "Since w t = Sub (clock w) t"

subsection \<open>MemoryStorage\<close>

definition Memory_Get :: "string \<Rightarrow> MemoryStorage \<Rightarrow> error + (real \<times> time)" where
  "Memory_Get uid ms =
     (case data ms uid of
        Some state \<Rightarrow> Inr (Tokens state, LastAccess state)
      | None \<Rightarrow> Inl (ErrNotFound uid))"

definition Memory_Set :: "string \<Rightarrow> real \<Rightarrow> time \<Rightarrow> MemoryStorage \<Rightarrow> MemoryStorage" where
  "Memory_Set uid tk la ms =
     ms\<lparr>data := (data ms)(uid \<mapsto> \<lparr>Tokens = tk, LastAccess = la\<rparr>)\<rparr>"

definition Memory_Delete :: "string \<Rightarrow> MemoryStorage \<Rightarrow> MemoryStorage" where
  "Memory_Delete uid ms = ms\<lparr>data := (data ms)(uid := None)\<rparr>"

subsection \<open>RedisStorage\<close>

definition fallbackValues :: "World \<Rightarrow> error + (real \<times> time)" where
  "fallbackValues w = Inr (MaxFloat64, clock w)"

datatype eval_outcome = GaveUp | Missing | Got redis_result

fun Redis_Get_loop ::
  "nat \<Rightarrow> string \<Rightarrow> RedisClient \<Rightarrow> World \<Rightarrow> eval_outcome \<times> RedisClient \<times> World" where
  "Redis_Get_loop 0 key c w = (GaveUp, c, w)"
| "Redis_Get_loop (Suc n) key c w =
     (case Do (EvalGet key) c of
        (RedisErr e, c1) \<Rightarrow> Redis_Get_loop n key c1 (Sleep (50 * Millisecond) w)
      | (RedisNil, c1) \<Rightarrow> (Missing, c1, w)
      | (r, c1) \<Rightarrow> (Got r, c1, w))"

definition Redis_Get ::
  "string \<Rightarrow> RedisStorage \<Rightarrow> World \<Rightarrow> (error + (real \<times> time)) \<times> RedisStorage \<times> World" where
  "Redis_Get uid rs w =
     (if \<not> healthyFlag rs then (fallbackValues w, rs, w)
      else case Redis_Get_loop 3 (keyPrefix rs @ uid) (client rs) w of
             (GaveUp, c1, w1) \<Rightarrow> (fallbackValues w1, rs\<lparr>client := c1\<rparr>, w1)
           | (Missing, c1, w1) \<Rightarrow> (Inl (ErrNotFound uid), rs\<lparr>client := c1\<rparr>, w1)
           | (Got (RedisValues [tokensStr, lastAccessStr]), c1, w1) \<Rightarrow>
               (case ParseFloat tokensStr of
                  Inl e \<Rightarrow> (fallbackValues w1, rs\<lparr>client := c1\<rparr>, w1)
                | Inr tk \<Rightarrow>
                    (case ParseInt lastAccessStr of
                       Inl e \<Rightarrow> (fallbackValues w1, rs\<lparr>client := c1\<rparr>, w1)
                     | Inr la \<Rightarrow> (Inr (tk, la), rs\<lparr>client := c1\<rparr>, w1)))
           | (Got r, c1, w1) \<Rightarrow> (fallbackValues w1, rs\<lparr>client := c1\<rparr>, w1))"

fun Redis_retry ::
  "nat \<Rightarrow> redis_cmd \<Rightarrow> error option \<Rightarrow> RedisClient \<Rightarrow> World
     \<Rightarrow> error option \<times> RedisClient \<times> World" where
  "Redis_retry 0 cmd err c w = (err, c, w)"
| "Redis_retry (Suc n) cmd err c w =
     (case Do cmd c of
        (RedisErr e, c1) \<Rightarrow>
          Redis_retry n cmd (Some (ErrRedis e)) c1 (Sleep (50 * Millisecond) w)
      | (RedisNil, c1) \<Rightarrow>
          Redis_retry n cmd (Some (ErrRedis ''redis: nil'')) c1 (Sleep (50 * Millisecond) w)
      | (r, c1) \<Rightarrow> (None, c1, w))"

definition Redis_Set ::
  "string \<Rightarrow> real \<Rightarrow> time \<Rightarrow> RedisStorage \<Rightarrow> World \<Rightarrow> error option \<times> RedisStorage \<times> World" where
  "Redis_Set uid tk la rs w =
     (if \<not> healthyFlag rs then (None, rs, w)
      else case Redis_retry 3 (EvalSet (keyPrefix rs @ uid) tk la) None (client rs) w of
             (err, c1, w1) \<Rightarrow> (err, rs\<lparr>client := c1\<rparr>, w1))"

definition Redis_Delete ::
  "string \<Rightarrow> RedisStorage \<Rightarrow> World \<Rightarrow> error option \<times> RedisStorage \<times> World" where
  "Redis_Delete uid rs w =
     (if \<not> healthyFlag rs then (None, rs, w)
      else case Redis_retry 3 (Del (keyPrefix rs @ uid)) None (client rs) w of
             (err, c1, w1) \<Rightarrow> (err, rs\<lparr>client := c1\<rparr>, w1))"

subsection \<open>The Storage interface\<close>

definition Storage_Get :: "string \<Rightarrow> Storage \<Rightarrow> World \<Rightarrow> (error + (real \<times> time)) \<times> World" where
  "Storage_Get uid st w =
     (case st of
        Memory ms \<Rightarrow> (Memory_Get uid ms, w)
      | Redis rs \<Rightarrow>
          (case Redis_Get uid rs w of
             (r, rs1, w1) \<Rightarrow> (r, w1\<lparr>storage := Some (Redis rs1)\<rparr>)))"

definition Storage_Set :: "string \<Rightarrow> real \<Rightarrow> time \<Rightarrow> Storage \<Rightarrow> World \<Rightarrow> error option \<times> World" where
  "Storage_Set uid tk la st w =
     (case st of
        Memory ms \<Rightarrow> (None, w\<lparr>storage := Some (Memory (Memory_Set uid tk la ms))\<rparr>)
      | Redis rs \<Rightarrow>
          (case Redis_Set uid tk la rs w of
             (err, rs1, w1) \<Rightarrow> (err, w1\<lparr>storage := Some (Redis rs1)\<rparr>)))"

definition Storage_Delete :: "string \<Rightarrow> Storage \<Rightarrow> World \<Rightarrow> error option \<times> World" where
  "Storage_Delete uid st w =
     (case st of
        Memory ms \<Rightarrow> (None, w\<lparr>storage := Some (Memory (Memory_Delete uid ms))\<rparr>)
      | Redis rs \<Rightarrow>
          (case Redis_Delete uid rs w of
             (err, rs1, w1) \<Rightarrow> (err, w1\<lparr>storage := Some (Redis rs1)\<rparr>)))"

section \<open>TokenBucket\<close>

record TokenBucket =
  rate :: int
  tokens :: real
  lastAccess :: time
  userID :: string
  burstMultiplier :: real
  lastStorageUpdate :: time

definition storageUpdateThreshold :: duration where
  "storageUpdateThreshold = 5 * Second"

definition NewTokenBucket :: "int \<Rightarrow> string \<Rightarrow> real \<Rightarrow> World \<Rightarrow> TokenBucket \<times> World" where
  "NewTokenBucket r uid burst w =
     (let bucket = \<lparr>rate = r, tokens = 0, lastAccess = clock w, userID = uid,
                    burstMultiplier = burst, lastStorageUpdate = clock w\<rparr>
      in case storage w of
           None \<Rightarrow> (bucket, w)
         | Some st \<Rightarrow>
             (case Storage_Get uid st w of
                (Inr (tk, la), w1) \<Rightarrow> (bucket\<lparr>tokens := tk, lastAccess := la\<rparr>, w1)
              | (Inl e, w1) \<Rightarrow> (bucket, w1)))"

definition Allow :: "int \<Rightarrow> TokenBucket \<Rightarrow> World \<Rightarrow> bool \<times> TokenBucket \<times> World" where
  "Allow count tb w0 =
     (let w = w0\<lparr>allowCalls := allowCalls w0 + 1\<rparr>;
          now = clock w;
          elapsed = Seconds (Sub now (lastAccess tb));
          newTokens = real_of_int (rate tb) * elapsed;
          tokens1 = tokens tb + newTokens;
          maxTokens = real_of_int (rate tb) * burstMultiplier tb;
          tokens2 = (if tokens1 > maxTokens then maxTokens else tokens1);
          tb1 = tb\<lparr>lastAccess := now, tokens := tokens2\<rparr>
      in if tokens2 < real_of_int count then (False, tb1, w)
         else let tb2 = tb1\<lparr>tokens := tokens2 - real_of_int count\<rparr>
              in case storage w of
                   None \<Rightarrow> (True, tb2, w)
                 | Some st \<Rightarrow>
                     if Since w (lastStorageUpdate tb2) > storageUpdateThreshold
                     then (case Storage_Set (userID tb2) (tokens tb2) (lastAccess tb2) st w of
                             (err, w1) \<Rightarrow> (True, tb2\<lparr>lastStorageUpdate := clock w1\<rparr>, w1))
                     else (True, tb2, w))"

definition Rate :: "TokenBucket \<Rightarrow> int" where
  "Rate tb = rate tb"

definition SetRate :: "int \<Rightarrow> TokenBucket \<Rightarrow> TokenBucket" where
  "SetRate r tb = tb\<lparr>rate := r\<rparr>"

definition LastAccess_of :: "TokenBucket \<Rightarrow> time" where
  "LastAccess_of tb = lastAccess tb"

definition Tokens_of :: "TokenBucket \<Rightarrow> real" where
  "Tokens_of tb = tokens tb"

section \<open>RateLimitWriter\<close>

type_synonym bytes = "char list"
type_synonym Header = "string \<rightharpoonup> string list"

text \<open>
  The wrapped \<^verbatim>\<open>http.ResponseWriter\<close>, as \<^verbatim>\<open>net/http\<close> documents it: the first
  \<^verbatim>\<open>WriteHeader\<close> sends the status with the header map as it is then, later ones are
  ignored, and a \<^verbatim>\<open>Write\<close> before any \<^verbatim>\<open>WriteHeader\<close> sends status 200 first.
  \<open>script\<close> is the environment: the outcome of each coming \<^verbatim>\<open>Write\<close>, as the
  number of bytes the connection takes and the error it reports; once the script is
  used up every write succeeds in full. \<open>writeCalls\<close> counts the calls of
  \<^verbatim>\<open>Write\<close>.
\<close>

record Sink =
  hdr :: Header
  status :: "int option"
  sentHeader :: Header
  body :: bytes
  script :: "(nat \<times> error option) list"
  writeCalls :: nat

definition Sink_WriteHeader :: "int \<Rightarrow> Sink \<Rightarrow> Sink" where
  "Sink_WriteHeader code s =
     (if status s = None then s\<lparr>status := Some code, sentHeader := hdr s\<rparr> else s)"

definition Sink_Write :: "bytes \<Rightarrow> Sink \<Rightarrow> nat \<times> error option \<times> Sink" where
  "Sink_Write p s0 =
     (let s = (if status s0 = None then Sink_WriteHeader 200 s0 else s0)\<lparr>writeCalls := writeCalls s0 + 1\<rparr>
      in case script s of
           [] \<Rightarrow> (length p, None, s\<lparr>body := body s @ p\<rparr>)
         | (k, e) # rest \<Rightarrow>
             (let n = min k (length p)
              in (n, e, s\<lparr>body := body s @ take n p, script := rest\<rparr>)))"

record RateLimitWriter =
  w_inner :: Sink
  bucket :: TokenBucket
  wroteHeader :: bool

definition NewRateLimitWriter :: "Sink \<Rightarrow> TokenBucket \<Rightarrow> RateLimitWriter" where
  "NewRateLimitWriter snk tb = \<lparr>w_inner = snk, bucket = tb, wroteHeader = False\<rparr>"

definition WriteHeader :: "int \<Rightarrow> RateLimitWriter \<Rightarrow> RateLimitWriter" where
  "WriteHeader statusCode rlw =
     (if \<not> wroteHeader rlw
      then rlw\<lparr>wroteHeader := True, w_inner := Sink_WriteHeader statusCode (w_inner rlw)\<rparr>
      else rlw)"

definition chunkSizeFor :: "int \<Rightarrow> nat" where
  "chunkSizeFor r =
     (if r \<ge> 10 * 1024 * 1024 \<and> r < 50 * 1024 * 1024 then 256 * 1024
      else if r \<ge> 50 * 1024 * 1024 then 512 * 1024
      else 64 * 1024)"

definition currentChunkSize :: "nat \<Rightarrow> nat \<Rightarrow> nat \<Rightarrow> nat" where
  "currentChunkSize len written chunkSize =
     (let remainingBytes = len - written
      in if remainingBytes < chunkSize then remainingBytes else chunkSize)"

definition toDuration :: "real \<Rightarrow> duration" where
  \<comment> \<open>The conversion \<^verbatim>\<open>time.Duration(x)\<close> truncates towards zero; out of the
      \<^verbatim>\<open>int64\<close> range its result depends on the platform, and that of amd64 is taken.\<close>
  "toDuration x =
     (let t = (if x < 0 then \<lceil>x\<rceil> else \<lfloor>x\<rfloor>)
      in if minDuration \<le> t \<and> t \<le> maxDuration then t else minDuration)"

definition currentRate :: "TokenBucket \<Rightarrow> int" where
  "currentRate tb = (if Rate tb \<le> 0 then 1024 else Rate tb)"

definition waitTime :: "nat \<Rightarrow> TokenBucket \<Rightarrow> duration" where
  "waitTime ccs tb =
     (let waitTokens = real ccs - Tokens_of tb;
          wt = toDuration (waitTokens / real_of_int (currentRate tb) * real_of_int Second)
      in if wt < Millisecond then Millisecond else wt)"

partial_function (option) waitForTokens ::
  "nat \<Rightarrow> TokenBucket \<Rightarrow> World \<Rightarrow> (TokenBucket \<times> World) option" where
  "waitForTokens ccs tb wld =
     (case Allow (int ccs) tb wld of
        (ok, tb1, wld1) \<Rightarrow>
          if ok then Some (tb1, wld1)
          else waitForTokens ccs tb1 (Sleep (waitTime ccs tb1) wld1))"

partial_function (option) Write_loop ::
  "bytes \<Rightarrow> nat \<Rightarrow> nat \<Rightarrow> RateLimitWriter \<Rightarrow> World
     \<Rightarrow> ((nat \<times> error option) \<times> RateLimitWriter \<times> World) option" where
  "Write_loop b chunkSize written rlw wld =
     (if written < length b
      then let ccs = currentChunkSize (length b) written chunkSize
           in Option.bind (waitForTokens ccs (bucket rlw) wld)
                (\<lambda>(tb1, wld1).
                   case Sink_Write (take ccs (drop written b)) (w_inner rlw) of
                     (n, err, snk1) \<Rightarrow>
                       (let written1 = written + n;
                            rlw1 = rlw\<lparr>bucket := tb1, w_inner := snk1\<rparr>
                        in if err \<noteq> None then Some ((written1, err), rlw1, wld1)
                           else Write_loop b chunkSize written1 rlw1 wld1))
      else Some ((written, None), rlw, wld))"

declare waitForTokens.simps [code]
declare Write_loop.simps [code]

definition Write ::
  "bytes \<Rightarrow> RateLimitWriter \<Rightarrow> World
     \<Rightarrow> ((nat \<times> error option) \<times> RateLimitWriter \<times> World) option" where
  "Write b rlw0 wld =
     (let rlw = (if \<not> wroteHeader rlw0 then WriteHeader 200 rlw0 else rlw0)
      in if length b = 0 then Some ((0, None), rlw, wld)
         else Write_loop b (chunkSizeFor (Rate (bucket rlw))) 0 rlw wld)"

section \<open>The handler \<^verbatim>\<open>rate_limit_dynamic\<close>\<close>

text \<open>
  Header names are taken in their canonical spelling, so \<^verbatim>\<open>Header.Get\<close> is a lookup
  of the first value. The context of a request carries at most the bucket stored under
  \<^verbatim>\<open>tokenBucketKey\<close>; the pointer is modelled by the key of the bucket in the
  registry \<open>limiters\<close>.
\<close>

definition Header_Get :: "Header \<Rightarrow> string \<Rightarrow> string" where
  "Header_Get h key = (case h key of None \<Rightarrow> [] | Some [] \<Rightarrow> [] | Some (v # vs) \<Rightarrow> v)"

definition Header_Set :: "string \<Rightarrow> string \<Rightarrow> Header \<Rightarrow> Header" where
  "Header_Set key v h = h(key \<mapsto> [v])"

record Request =
  Method :: string
  path :: string
  rawPath :: string
  requestURI :: string
  reqHeader :: Header
  ctxBucket :: "string option"

text \<open>
  A downstream handler is the environment: for a request it makes a sequence of calls
  on the response writer it is given, and returns an error or nil.
\<close>

datatype rw_op = SetHeader string string | WriteHeaderOp int | WriteOp bytes

type_synonym Handler = "Request \<Rightarrow> rw_op list \<times> error option"

fun sink_apply :: "rw_op \<Rightarrow> Sink \<Rightarrow> Sink" where
  "sink_apply (SetHeader key v) s = s\<lparr>hdr := Header_Set key v (hdr s)\<rparr>"
| "sink_apply (WriteHeaderOp code) s = Sink_WriteHeader code s"
| "sink_apply (WriteOp b) s = snd (snd (Sink_Write b s))"

record captureResponseWriter =
  ResponseWriter :: Sink
  statusCode :: int
  header :: Header
  crw_wroteHeader :: bool

definition crw_WriteHeader :: "int \<Rightarrow> captureResponseWriter \<Rightarrow> captureResponseWriter" where
  "crw_WriteHeader code crw =
     (if \<not> crw_wroteHeader crw
      then crw\<lparr>statusCode := code, crw_wroteHeader := True\<rparr>
      else crw)"

definition crw_Write ::
  "bytes \<Rightarrow> captureResponseWriter \<Rightarrow> nat \<times> error option \<times> captureResponseWriter" where
  "crw_Write b crw0 =
     (let crw = (if \<not> crw_wroteHeader crw0 then crw_WriteHeader 200 crw0 else crw0)
      in case Sink_Write b (ResponseWriter crw) of
           (n, err, snk) \<Rightarrow> (n, err, crw\<lparr>ResponseWriter := snk\<rparr>))"

fun crw_apply :: "rw_op \<Rightarrow> captureResponseWriter \<Rightarrow> captureResponseWriter" where
  "crw_apply (SetHeader key v) crw = crw\<lparr>header := Header_Set key v (header crw)\<rparr>"
| "crw_apply (WriteHeaderOp code) crw = crw_WriteHeader code crw"
| "crw_apply (WriteOp b) crw = snd (snd (crw_Write b crw))"

record RateLimit =
  HeaderUserID :: string
  HeaderRateLimit :: string
  BurstMultiplier :: real
  limiters :: "string \<rightharpoonup> TokenBucket"

definition getOrCreateBucket ::
  "string \<Rightarrow> int \<Rightarrow> RateLimit \<Rightarrow> World \<Rightarrow> (error + string) \<times> RateLimit \<times> World" where
  "getOrCreateBucket uid rateLimit rl wld =
     (case limiters rl uid of
        Some tb \<Rightarrow>
          (if Rate tb \<noteq> rateLimit
           then (Inr uid, rl\<lparr>limiters := (limiters rl)(uid \<mapsto> SetRate rateLimit tb)\<rparr>, wld)
           else (Inr uid, rl, wld))
      | None \<Rightarrow>
          (case NewTokenBucket rateLimit uid (BurstMultiplier rl) wld of
             (tb, wld1) \<Rightarrow> (Inr uid, rl\<lparr>limiters := (limiters rl)(uid \<mapsto> tb)\<rparr>, wld1)))"

text \<open>
  What a call of \<^verbatim>\<open>ServeHTTP\<close> leaves behind: its return value, the real response
  writer, the handler with its registry, the world, and the requests it has passed to
  \<^verbatim>\<open>next\<close>, in order.
\<close>

record Served =
  ret :: "error option"
  out :: Sink
  handler :: RateLimit
  world :: World
  dispatched :: "Request list"

definition attachBucket ::
  "string \<Rightarrow> string \<Rightarrow> Request \<Rightarrow> RateLimit \<Rightarrow> World \<Rightarrow> string option \<times> RateLimit \<times> World" where
  \<comment> \<open>The context of the derived request: lines 182 to 216 of \<^verbatim>\<open>ServeHTTP\<close>.\<close>
  "attachBucket uid rateLimitStr r rl wld =
     (if uid \<noteq> [] \<and> rateLimitStr \<noteq> []
      then (case ParseInt rateLimitStr of
              Inl e \<Rightarrow> (ctxBucket r, rl, wld)
            | Inr rateLimit \<Rightarrow>
                (case getOrCreateBucket uid rateLimit rl wld of
                   (Inl e, rl1, wld1) \<Rightarrow> (ctxBucket r, rl1, wld1)
                 | (Inr ref, rl1, wld1) \<Rightarrow> (Some ref, rl1, wld1)))
      else (ctxBucket r, rl, wld))"

definition redirectTarget :: "Request \<Rightarrow> string \<Rightarrow> string option \<Rightarrow> Request" where
  \<comment> \<open>The derived request: a clone with the new context, sent to the redirect path.\<close>
  "redirectTarget r accelRedirect ctx =
     r\<lparr>ctxBucket := ctx, path := accelRedirect, rawPath := [], requestURI := accelRedirect\<rparr>"

definition newCapture :: "Sink \<Rightarrow> captureResponseWriter" where
  \<comment> \<open>The capturing writer that \<^verbatim>\<open>ServeHTTP\<close> wraps around the real one.\<close>
  "newCapture snk =
     \<lparr>ResponseWriter = snk, statusCode = 200, header = Map.empty, crw_wroteHeader = False\<rparr>"

definition ServeHTTP :: "RateLimit \<Rightarrow> Sink \<Rightarrow> Request \<Rightarrow> Handler \<Rightarrow> World \<Rightarrow> Served" where
  "ServeHTTP rl snk r next wld =
     (let crw0 = newCapture snk
      in case next r of
           (ops, err) \<Rightarrow>
             (let crw = fold crw_apply ops crw0
              in if err \<noteq> None
                 then \<lparr>ret = err, out = ResponseWriter crw, handler = rl, world = wld,
                       dispatched = [r]\<rparr>
                 else
                   let accelRedirect = Header_Get (header crw) ''X-Accel-Redirect'';
                       uid = Header_Get (header crw) (HeaderUserID rl);
                       rateLimitStr = Header_Get (header crw) (HeaderRateLimit rl)
                   in if accelRedirect = []
                      then \<lparr>ret = None, out = ResponseWriter crw, handler = rl, world = wld,
                            dispatched = [r]\<rparr>
                      else
                        case attachBucket uid rateLimitStr r rl wld of
                          (ctx, rl1, wld1) \<Rightarrow>
                            (let newReq = redirectTarget r accelRedirect ctx
                             in case next newReq of
                                  (ops2, err2) \<Rightarrow>
                                    \<lparr>ret = err2, out = fold sink_apply ops2 (ResponseWriter crw),
                                     handler = rl1, world = wld1,
                                     dispatched = [r, newReq]\<rparr>)))"

section \<open>The properties, in the words of the specification\<close>

definition refilled :: "TokenBucket \<Rightarrow> World \<Rightarrow> real" where
  \<comment> \<open>The balance after the refill \<open>rate * elapsed\<close> and the clamp to \<open>rate * burstMultiplier\<close>.\<close>
  "refilled tb wld =
     min (tokens tb + real_of_int (rate tb) * Seconds (Sub (clock wld) (lastAccess tb)))
         (real_of_int (rate tb) * burstMultiplier tb)"

definition within_burst :: "TokenBucket \<Rightarrow> bool" where
  "within_burst tb = (0 \<le> tokens tb \<and> tokens tb \<le> real_of_int (rate tb) * burstMultiplier tb)"

text \<open>
  A sequence of calls of \<^verbatim>\<open>Allow\<close>, each with the reading of the clock at the call and
  the requested count; the result is the bucket on return of each call.
\<close>

fun Allow_calls :: "(time \<times> int) list \<Rightarrow> TokenBucket \<Rightarrow> World \<Rightarrow> TokenBucket list" where
  "Allow_calls [] tb wld = []"
| "Allow_calls ((now, n) # cs) tb wld =
     (case Allow n tb (wld\<lparr>clock := now\<rparr>) of
        (ok, tb1, wld1) \<Rightarrow> tb1 # Allow_calls cs tb1 wld1)"

fun isWrite :: "rw_op \<Rightarrow> bool" where
  "isWrite (WriteOp b) = True"
| "isWrite other = False"

text \<open>
  A buffer cut into chunks of \<open>n\<close> bytes, the last one shorter when the length is not a
  multiple of \<open>n\<close>, and the effect of one write on the wrapped writer.
\<close>

fun chunksOf :: "nat \<Rightarrow> 'a list \<Rightarrow> 'a list list" where
  "chunksOf n xs = (if n = 0 \<or> xs = [] then [] else take n xs # chunksOf n (drop n xs))"

declare chunksOf.simps [simp del]

definition sinkWrite :: "bytes \<Rightarrow> Sink \<Rightarrow> Sink" where
  "sinkWrite p s = snd (snd (Sink_Write p s))"

section \<open>Example inputs\<close>

definition ex_bucket :: "int \<Rightarrow> TokenBucket" where
  "ex_bucket r =
     \<lparr>rate = r, tokens = 0, lastAccess = 0, userID = ''u1'', burstMultiplier = 1,
      lastStorageUpdate = 0\<rparr>"

definition ex_world_at :: "time \<Rightarrow> World" where
  "ex_world_at t = \<lparr>clock = t, storage = None, allowCalls = 0\<rparr>"

definition ex_world :: World where
  "ex_world = \<lparr>clock = 0, storage = Some (Memory \<lparr>data = Map.empty\<rparr>), allowCalls = 0\<rparr>"

definition ex_redis_down :: RedisStorage where
  "ex_redis_down =
     \<lparr>client = \<lparr>sent = [], replies = []\<rparr>, keyPrefix = ''ratelimit:'', healthyFlag = False\<rparr>"

definition ex_world_down :: World where
  "ex_world_down = \<lparr>clock = 0, storage = Some (Redis ex_redis_down), allowCalls = 0\<rparr>"

definition ex_world_stored :: World where
  "ex_world_stored =
     \<lparr>clock = 1000, storage = Some (Memory \<lparr>data = [''u1'' \<mapsto> \<lparr>Tokens = 412.5, LastAccess = 7\<rparr>]\<rparr>),
      allowCalls = 0\<rparr>"

definition ex_redis_up :: RedisStorage where
  "ex_redis_up =
     \<lparr>client = \<lparr>sent = [], replies = [RedisValues [''412.5'', ''7'']]\<rparr>,
      keyPrefix = ''ratelimit:'', healthyFlag = True\<rparr>"

definition ex_world_up :: World where
  "ex_world_up = \<lparr>clock = 1000, storage = Some (Redis ex_redis_up), allowCalls = 0\<rparr>"

definition ex_sink :: Sink where
  "ex_sink =
     \<lparr>hdr = Map.empty, status = None, sentHeader = Map.empty, body = [], script = [],
      writeCalls = 0\<rparr>"

definition ex_rl :: RateLimit where
  "ex_rl =
     \<lparr>HeaderUserID = ''X-Accel-User-ID'', HeaderRateLimit = ''X-Accel-RateLimit'',
      BurstMultiplier = 1, limiters = Map.empty\<rparr>"

definition ex_request :: Request where
  "ex_request =
     \<lparr>Method = ''GET'', path = ''/download/f'', rawPath = [], requestURI = ''/download/f'',
      reqHeader = Map.empty, ctxBucket = None\<rparr>"

definition ex_notfound :: Handler where
  "ex_notfound req =
     ([SetHeader ''Content-Type'' ''text/plain'', WriteHeaderOp 404, WriteOp ''Not Found''], None)"

definition ex_signal :: "string \<Rightarrow> rw_op list" where
  "ex_signal rateStr =
     [SetHeader ''X-Accel-Redirect'' ''/f'', SetHeader ''X-Accel-User-ID'' ''u1'',
      SetHeader ''X-Accel-RateLimit'' rateStr, WriteHeaderOp 200]"

definition ex_backend :: "string \<Rightarrow> Handler" where
  "ex_backend rateStr req =
     (if path req = ''/download/f'' then (ex_signal rateStr, None) else ([WriteOp ''data''], None))"

section \<open>Token bucket\<close>

lemma Sub_nonneg: "u \<le> t \<Longrightarrow> 0 \<le> Sub t u"
  by (simp add: Sub_def Let_def maxDuration_def minDuration_def)

lemma Seconds_nonneg: "0 \<le> d \<Longrightarrow> 0 \<le> Seconds d"
  by (simp add: Seconds_def)

lemma Allow_fields:
  "rate (fst (snd (Allow n tb wld))) = rate tb \<and>
   burstMultiplier (fst (snd (Allow n tb wld))) = burstMultiplier tb \<and>
   lastAccess (fst (snd (Allow n tb wld))) = clock wld"
  by (auto simp add: Allow_def Let_def split: option.splits prod.splits)

lemma Allow_tokens:
  "tokens (fst (snd (Allow n tb wld))) =
     (if refilled tb wld < real_of_int n then refilled tb wld else refilled tb wld - real_of_int n)"
  by (auto simp add: Allow_def refilled_def Let_def min_def split: option.splits prod.splits)

lemma Allow_ok_iff: "fst (Allow n tb wld) = (\<not> refilled tb wld < real_of_int n)"
  by (auto simp add: Allow_def refilled_def Let_def min_def split: option.splits prod.splits)

text \<open>
  C3. Every call \<^verbatim>\<open>Allow(count)\<close> sets \<^verbatim>\<open>lastAccess\<close> to the current time, adds
  \<open>rate * elapsed\<close> tokens and clamps the balance to at most \<open>rate * burstMultiplier\<close>.
  If the clamped balance is below \<open>count\<close> the call returns false and keeps the refilled
  balance; otherwise it subtracts \<open>count\<close> and returns true.
\<close>

theorem Allow_refill_clamp_consume:
  "lastAccess (fst (snd (Allow n tb wld))) = clock wld \<and>
   (refilled tb wld < real_of_int n \<longrightarrow>
      \<not> fst (Allow n tb wld) \<and> tokens (fst (snd (Allow n tb wld))) = refilled tb wld) \<and>
   (\<not> refilled tb wld < real_of_int n \<longrightarrow>
      fst (Allow n tb wld) \<and>
      tokens (fst (snd (Allow n tb wld))) = refilled tb wld - real_of_int n)"
  by (auto simp add: Allow_def refilled_def Let_def min_def split: option.splits prod.splits)

theorem Allow_refill_clamp_consume_witness:
  "lastAccess (fst (snd (Allow 100 (ex_bucket 1024) (ex_world_at 500000000)))) = 500000000 \<and>
   fst (Allow 100 (ex_bucket 1024) (ex_world_at 500000000)) \<and>
   tokens (fst (snd (Allow 100 (ex_bucket 1024) (ex_world_at 500000000)))) = 412 \<and>
   \<not> fst (Allow 600 (ex_bucket 1024) (ex_world_at 500000000)) \<and>
   tokens (fst (snd (Allow 600 (ex_bucket 1024) (ex_world_at 500000000)))) = 512"
proof -
  have r: "refilled (ex_bucket 1024) (ex_world_at 500000000) = 512"
    by (simp add: refilled_def ex_bucket_def ex_world_at_def Sub_def Seconds_def
        maxDuration_def minDuration_def)
  have c: "clock (ex_world_at 500000000) = 500000000"
    by (simp add: ex_world_at_def)
  show ?thesis
    using Allow_refill_clamp_consume [of 100 "ex_bucket 1024" "ex_world_at 500000000"]
      Allow_refill_clamp_consume [of 600 "ex_bucket 1024" "ex_world_at 500000000"]
    by (simp add: r c)
qed

lemma refilled_bounds:
  assumes "0 \<le> tokens tb" and "0 \<le> rate tb" and "0 \<le> burstMultiplier tb"
    and "lastAccess tb \<le> clock wld"
  shows "0 \<le> refilled tb wld"
    and "refilled tb wld \<le> real_of_int (rate tb) * burstMultiplier tb"
proof -
  have "0 \<le> Seconds (Sub (clock wld) (lastAccess tb))"
    using assms(4) by (simp add: Sub_nonneg Seconds_nonneg)
  then have "0 \<le> real_of_int (rate tb) * Seconds (Sub (clock wld) (lastAccess tb))"
    using assms(2) by simp
  then show "0 \<le> refilled tb wld"
    using assms(1,2,3) by (simp add: refilled_def)
  show "refilled tb wld \<le> real_of_int (rate tb) * burstMultiplier tb"
    by (simp add: refilled_def)
qed

lemma Allow_within_burst:
  assumes "0 \<le> tokens tb" and "0 \<le> rate tb" and "0 \<le> burstMultiplier tb"
    and "lastAccess tb \<le> clock wld" and "0 \<le> n"
  shows "within_burst (fst (snd (Allow n tb wld)))"
  using refilled_bounds [OF assms(1-4)] assms(5)
  by (simp add: within_burst_def Allow_fields Allow_tokens)

text \<open>
  C4, as the code has it. The claim asks for \<open>0 \<le> tokens \<le> rate * burstMultiplier\<close> after
  every call, for every bucket with a non-negative balance. A bucket whose rate is
  negative leaves the range at once: the handler takes the rate from a header and
  accepts a negative number.
\<close>

theorem negative_rate_leaves_range:
  "0 \<le> tokens (ex_bucket (- 5)) \<and>
   lastAccess (ex_bucket (- 5)) \<le> clock (ex_world_at 1000000000) \<and>
   tokens (fst (snd (Allow 1 (ex_bucket (- 5)) (ex_world_at 1000000000)))) = - 5 \<and>
   \<not> within_burst (fst (snd (Allow 1 (ex_bucket (- 5)) (ex_world_at 1000000000))))"
  by (simp add: Allow_def within_burst_def ex_bucket_def ex_world_at_def Let_def Sub_def
      Seconds_def maxDuration_def minDuration_def)

text \<open>
  C4, amended. For every bucket with a non-negative rate, a non-negative burst multiplier
  and a non-negative balance, and for every sequence of calls of \<^verbatim>\<open>Allow\<close> with
  non-negative counts and non-decreasing clock readings, starting no earlier than
  \<^verbatim>\<open>lastAccess\<close>, the balance satisfies \<open>0 \<le> tokens \<le> rate * burstMultiplier\<close> on
  return of each call.
\<close>

theorem Allow_calls_within_burst:
  assumes "0 \<le> tokens tb" and "0 \<le> rate tb" and "0 \<le> burstMultiplier tb"
    and "sorted (lastAccess tb # map fst cs)"
    and "\<forall>c \<in> set cs. 0 \<le> snd c"
  shows "\<forall>tb' \<in> set (Allow_calls cs tb wld). within_burst tb'"
  using assms
proof (induction cs arbitrary: tb wld)
  case Nil
  then show ?case by simp
next
  case (Cons c cs)
  obtain now n where c: "c = (now, n)" by (cases c)
  let ?w = "wld\<lparr>clock := now\<rparr>"
  obtain ok tb1 wld1 where a: "Allow n tb ?w = (ok, tb1, wld1)" by (cases "Allow n tb ?w")
  have tb1: "tb1 = fst (snd (Allow n tb ?w))" by (simp add: a)
  have le: "lastAccess tb \<le> clock ?w" using Cons.prems(4) c by simp
  have n0: "0 \<le> n" using Cons.prems(5) c by simp
  have wb: "within_burst tb1"
    unfolding tb1 by (rule Allow_within_burst [OF Cons.prems(1-3) le n0])
  have f: "rate tb1 = rate tb" "burstMultiplier tb1 = burstMultiplier tb" "lastAccess tb1 = now"
    unfolding tb1 by (simp_all add: Allow_fields)
  have "\<forall>tb' \<in> set (Allow_calls cs tb1 wld1). within_burst tb'"
  proof (rule Cons.IH)
    show "0 \<le> tokens tb1" using wb by (simp add: within_burst_def)
    show "0 \<le> rate tb1" using Cons.prems(2) f by simp
    show "0 \<le> burstMultiplier tb1" using Cons.prems(3) f by simp
    show "sorted (lastAccess tb1 # map fst cs)" using Cons.prems(4) c f by simp
    show "\<forall>c \<in> set cs. 0 \<le> snd c" using Cons.prems(5) by simp
  qed
  then show ?case using wb by (simp add: c a)
qed

theorem Allow_calls_within_burst_witness:
  "map tokens (Allow_calls [(500000000, 100), (500000000, 500), (2000000000, 1000)]
       (ex_bucket 1024) (ex_world_at 0)) = [412, 412, 24] \<and>
   within_burst (last (Allow_calls [(500000000, 100), (500000000, 500), (2000000000, 1000)]
       (ex_bucket 1024) (ex_world_at 0)))"
proof -
  let ?cs = "[(500000000, 100), (500000000, 500), (2000000000, 1000)] :: (time \<times> int) list"
  have h: "0 \<le> tokens (ex_bucket 1024)" "0 \<le> rate (ex_bucket 1024)"
    "0 \<le> burstMultiplier (ex_bucket 1024)"
    "sorted (lastAccess (ex_bucket 1024) # map fst ?cs)" "\<forall>c \<in> set ?cs. 0 \<le> snd c"
    by (simp_all add: ex_bucket_def)
  have v: "map tokens (Allow_calls ?cs (ex_bucket 1024) (ex_world_at 0)) = [412, 412, 24]"
    by (simp add: Allow_def ex_bucket_def ex_world_at_def Let_def Sub_def Seconds_def
        maxDuration_def minDuration_def)
  then have ne: "Allow_calls ?cs (ex_bucket 1024) (ex_world_at 0) \<noteq> []" by auto
  show ?thesis
    using Allow_calls_within_burst [OF h, of "ex_world_at 0"] v last_in_set [OF ne] by blast
qed

section \<open>Storage and the seed of a new bucket\<close>

lemma Redis_Get_unhealthy:
  "\<not> healthyFlag rs \<Longrightarrow> Redis_Get uid rs wld = (Inr (MaxFloat64, clock wld), rs, wld)"
  by (simp add: Redis_Get_def fallbackValues_def)

lemma Redis_Set_unhealthy:
  "\<not> healthyFlag rs \<Longrightarrow> Redis_Set uid tk la rs wld = (None, rs, wld)"
  by (simp add: Redis_Set_def)

lemma Redis_Delete_unhealthy:
  "\<not> healthyFlag rs \<Longrightarrow> Redis_Delete uid rs wld = (None, rs, wld)"
  by (simp add: Redis_Delete_def)

lemma MaxFloat64_covers_int64:
  assumes "n \<le> 2 ^ 63 - 1"
  shows "real_of_int n < MaxFloat64"
proof -
  have "real_of_int n \<le> real_of_int (2 ^ 63 - 1)"
    using assms by (simp only: of_int_le_iff)
  also have "\<dots> < MaxFloat64"
    by (simp add: MaxFloat64_def)
  finally show ?thesis .
qed

lemma Redis_Get_missing:
  "healthyFlag rs \<Longrightarrow> replies (client rs) = RedisNil # rest \<Longrightarrow>
     fst (Redis_Get uid rs wld) = Inl (ErrNotFound uid)"
  by (simp add: Redis_Get_def eval_nat_numeral Do_def)

lemma Allow_starved:
  assumes "real_of_int (rate tb) * burstMultiplier tb < real_of_int n"
  shows "\<not> fst (Allow n tb wld)"
  using assms by (simp add: Allow_ok_iff refilled_def min_def)

text \<open>
  C5. While the health flag of the Redis backend is false, \<^verbatim>\<open>Get\<close> returns a token
  value so large that a following \<^verbatim>\<open>Allow\<close> succeeds whatever the count, and
  \<^verbatim>\<open>Set\<close> and \<^verbatim>\<open>Delete\<close> return nil without contacting the store.

  The code does not reach the first part. \<^verbatim>\<open>Get\<close> returns \<^verbatim>\<open>math.MaxFloat64\<close>, and
  \<^verbatim>\<open>NewTokenBucket\<close> takes it as the balance, but \<^verbatim>\<open>Allow\<close> clamps the balance to
  \<open>rate * burstMultiplier\<close> before it compares: with rate 1024 and multiplier 1 a call
  for 65536 bytes is rejected.
\<close>

theorem fail_open_defeated_by_clamp:
  "fst (Redis_Get ''u1'' ex_redis_down ex_world_down) = Inr (MaxFloat64, 0) \<and>
   tokens (fst (NewTokenBucket 1024 ''u1'' 1 ex_world_down)) = MaxFloat64 \<and>
   \<not> fst (Allow 65536 (fst (NewTokenBucket 1024 ''u1'' 1 ex_world_down))
            (Sleep Second (snd (NewTokenBucket 1024 ''u1'' 1 ex_world_down))))"
  by (simp add: Redis_Get_def fallbackValues_def ex_redis_down_def ex_world_down_def
      NewTokenBucket_def Storage_Get_def Allow_def Let_def Sleep_def Second_def Sub_def
      Seconds_def maxDuration_def minDuration_def MaxFloat64_def)

lemma NewTokenBucket_nil:
  "storage wld = None \<Longrightarrow> NewTokenBucket r uid burst wld =
     (\<lparr>rate = r, tokens = 0, lastAccess = clock wld, userID = uid,
       burstMultiplier = burst, lastStorageUpdate = clock wld\<rparr>, wld)"
  by (simp add: NewTokenBucket_def)

lemma NewTokenBucket_memory:
  "storage wld = Some (Memory ms) \<Longrightarrow>
     tokens (fst (NewTokenBucket r uid burst wld)) =
       (case data ms uid of None \<Rightarrow> 0 | Some st \<Rightarrow> Tokens st) \<and>
     lastAccess (fst (NewTokenBucket r uid burst wld)) =
       (case data ms uid of None \<Rightarrow> clock wld | Some st \<Rightarrow> LastAccess st)"
  by (simp add: NewTokenBucket_def Storage_Get_def Memory_Get_def split: option.splits)

lemma NewTokenBucket_redis_down:
  "storage wld = Some (Redis rs) \<Longrightarrow> \<not> healthyFlag rs \<Longrightarrow>
     tokens (fst (NewTokenBucket r uid burst wld)) = MaxFloat64 \<and>
     lastAccess (fst (NewTokenBucket r uid burst wld)) = clock wld"
  by (simp add: NewTokenBucket_def Storage_Get_def Redis_Get_unhealthy)

lemma NewTokenBucket_redis_missing:
  assumes "storage wld = Some (Redis rs)" and "healthyFlag rs"
    and "replies (client rs) = RedisNil # rest"
  shows "tokens (fst (NewTokenBucket r uid burst wld)) = 0 \<and>
     lastAccess (fst (NewTokenBucket r uid burst wld)) = clock wld"
proof -
  obtain res rs1 w1 where g: "Redis_Get uid rs wld = (res, rs1, w1)"
    by (cases "Redis_Get uid rs wld")
  have "res = Inl (ErrNotFound uid)"
    using Redis_Get_missing [OF assms(2,3), of uid wld] g by simp
  then show ?thesis
    using assms(1) g by (simp add: NewTokenBucket_def Storage_Get_def)
qed

lemma NewTokenBucket_from_Get:
  assumes "storage wld = Some st"
  shows "case fst (Storage_Get uid st wld) of
        Inr (tk, la) \<Rightarrow>
          tokens (fst (NewTokenBucket r uid burst wld)) = tk \<and>
          lastAccess (fst (NewTokenBucket r uid burst wld)) = la
      | Inl e \<Rightarrow>
          tokens (fst (NewTokenBucket r uid burst wld)) = 0 \<and>
          lastAccess (fst (NewTokenBucket r uid burst wld)) = clock wld"
proof -
  obtain res w1 where g: "Storage_Get uid st wld = (res, w1)"
    by (cases "Storage_Get uid st wld")
  show ?thesis
    using assms g by (cases res) (auto simp add: NewTokenBucket_def Let_def)
qed

lemma NewTokenBucket_fixed_fields:
  "rate (fst (NewTokenBucket r uid burst wld)) = r \<and>
   userID (fst (NewTokenBucket r uid burst wld)) = uid \<and>
   burstMultiplier (fst (NewTokenBucket r uid burst wld)) = burst \<and>
   lastStorageUpdate (fst (NewTokenBucket r uid burst wld)) = clock wld"
  by (simp add: NewTokenBucket_def Let_def split: option.splits prod.splits sum.splits)

lemma Redis_Get_stored:
  "healthyFlag rs \<Longrightarrow> replies (client rs) = RedisValues [tokensStr, lastAccessStr] # rest \<Longrightarrow>
     ParseFloat tokensStr = Inr tk \<Longrightarrow> ParseInt lastAccessStr = Inr la \<Longrightarrow>
     fst (Redis_Get uid rs wld) = Inr (tk, la)"
  by (simp add: Redis_Get_def eval_nat_numeral Do_def)

lemma NewTokenBucket_redis_stored:
  assumes "storage wld = Some (Redis rs)" and "healthyFlag rs"
    and "replies (client rs) = RedisValues [tokensStr, lastAccessStr] # rest"
    and "ParseFloat tokensStr = Inr tk" and "ParseInt lastAccessStr = Inr la"
  shows "tokens (fst (NewTokenBucket r uid burst wld)) = tk \<and>
     lastAccess (fst (NewTokenBucket r uid burst wld)) = la"
proof -
  obtain res rs1 w1 where g: "Redis_Get uid rs wld = (res, rs1, w1)"
    by (cases "Redis_Get uid rs wld")
  have "res = Inr (tk, la)"
    using Redis_Get_stored [OF assms(2-5), of uid wld] g by simp
  then show ?thesis
    using assms(1) g by (simp add: NewTokenBucket_def Storage_Get_def)
qed

text \<open>
  C8, as the code has it. The claim lets the stored pair override the zero balance only
  when an entry for the user exists in the store. With the Redis backend marked
  unhealthy no command is sent to the store, and the new bucket starts with
  \<^verbatim>\<open>math.MaxFloat64\<close> tokens.
\<close>

theorem seed_without_stored_entry:
  "snd (NewTokenBucket 1024 ''u1'' 1 ex_world_down) = ex_world_down \<and>
   sent (client ex_redis_down) = [] \<and>
   tokens (fst (NewTokenBucket 1024 ''u1'' 1 ex_world_down)) = MaxFloat64 \<and>
   tokens (fst (NewTokenBucket 1024 ''u1'' 1 ex_world_down)) \<noteq> 0"
  by (simp add: NewTokenBucket_def Storage_Get_def Redis_Get_def fallbackValues_def
      ex_world_down_def ex_redis_down_def MaxFloat64_def)

text \<open>
  C8, amended. \<^verbatim>\<open>NewTokenBucket\<close> sets the balance to 0 and \<^verbatim>\<open>lastAccess\<close> to the
  current time, and overrides both with the pair that \<^verbatim>\<open>storage.Get\<close> returns whenever
  that returns no error; the other fields are as given. Without a storage the bucket
  starts with zero tokens. With the memory backend the pair is overridden exactly when an
  entry for the user exists. With the Redis backend marked unhealthy \<^verbatim>\<open>Get\<close> returns
  \<^verbatim>\<open>math.MaxFloat64\<close> and the current time without an error, so the bucket starts with
  that balance though no entry exists; a healthy Redis backend that reports no entry
  leaves zero tokens, and one that returns a stored pair seeds the bucket with it.
\<close>

theorem NewTokenBucket_seed:
  "(storage wld = None \<longrightarrow>
      tokens (fst (NewTokenBucket r uid burst wld)) = 0 \<and>
      lastAccess (fst (NewTokenBucket r uid burst wld)) = clock wld) \<and>
   (\<forall>st. storage wld = Some st \<longrightarrow>
      (case fst (Storage_Get uid st wld) of
         Inr (tk, la) \<Rightarrow>
           tokens (fst (NewTokenBucket r uid burst wld)) = tk \<and>
           lastAccess (fst (NewTokenBucket r uid burst wld)) = la
       | Inl e \<Rightarrow>
           tokens (fst (NewTokenBucket r uid burst wld)) = 0 \<and>
           lastAccess (fst (NewTokenBucket r uid burst wld)) = clock wld)) \<and>
   (\<forall>ms. storage wld = Some (Memory ms) \<longrightarrow>
      tokens (fst (NewTokenBucket r uid burst wld)) =
        (case data ms uid of None \<Rightarrow> 0 | Some st \<Rightarrow> Tokens st) \<and>
      lastAccess (fst (NewTokenBucket r uid burst wld)) =
        (case data ms uid of None \<Rightarrow> clock wld | Some st \<Rightarrow> LastAccess st)) \<and>
   (\<forall>rs. storage wld = Some (Redis rs) \<and> \<not> healthyFlag rs \<longrightarrow>
      tokens (fst (NewTokenBucket r uid burst wld)) = MaxFloat64 \<and>
      lastAccess (fst (NewTokenBucket r uid burst wld)) = clock wld) \<and>
   (\<forall>rs rest. storage wld = Some (Redis rs) \<and> healthyFlag rs \<and>
        replies (client rs) = RedisNil # rest \<longrightarrow>
      tokens (fst (NewTokenBucket r uid burst wld)) = 0 \<and>
      lastAccess (fst (NewTokenBucket r uid burst wld)) = clock wld) \<and>
   (\<forall>rs tokensStr lastAccessStr rest tk la.
      storage wld = Some (Redis rs) \<and> healthyFlag rs \<and>
        replies (client rs) = RedisValues [tokensStr, lastAccessStr] # rest \<and>
        ParseFloat tokensStr = Inr tk \<and> ParseInt lastAccessStr = Inr la \<longrightarrow>
      tokens (fst (NewTokenBucket r uid burst wld)) = tk \<and>
      lastAccess (fst (NewTokenBucket r uid burst wld)) = la) \<and>
   rate (fst (NewTokenBucket r uid burst wld)) = r \<and>
   userID (fst (NewTokenBucket r uid burst wld)) = uid \<and>
   burstMultiplier (fst (NewTokenBucket r uid burst wld)) = burst \<and>
   lastStorageUpdate (fst (NewTokenBucket r uid burst wld)) = clock wld"
proof (intro conjI allI impI)
  show "rate (fst (NewTokenBucket r uid burst wld)) = r"
    "userID (fst (NewTokenBucket r uid burst wld)) = uid"
    "burstMultiplier (fst (NewTokenBucket r uid burst wld)) = burst"
    "lastStorageUpdate (fst (NewTokenBucket r uid burst wld)) = clock wld"
    using NewTokenBucket_fixed_fields [of r uid burst wld] by simp_all
qed (use NewTokenBucket_nil NewTokenBucket_memory NewTokenBucket_redis_down
      NewTokenBucket_redis_missing NewTokenBucket_redis_stored NewTokenBucket_from_Get
    in \<open>fastforce+\<close>)

theorem NewTokenBucket_seed_witness:
  "tokens (fst (NewTokenBucket 1024 ''u1'' 1 (ex_world_at 0))) = 0 \<and>
   tokens (fst (NewTokenBucket 1024 ''u1'' 1 ex_world)) = 0 \<and>
   tokens (fst (NewTokenBucket 1024 ''u1'' 1 ex_world_down)) = MaxFloat64 \<and>
   tokens (fst (NewTokenBucket 1024 ''u1'' 1 ex_world_stored)) = 412.5 \<and>
   lastAccess (fst (NewTokenBucket 1024 ''u1'' 1 ex_world_stored)) = 7 \<and>
   tokens (fst (NewTokenBucket 1024 ''u1'' 1 ex_world_up)) = 412.5 \<and>
   lastAccess (fst (NewTokenBucket 1024 ''u1'' 1 ex_world_up)) = 7 \<and>
   lastStorageUpdate (fst (NewTokenBucket 1024 ''u1'' 1 ex_world_up)) = 1000"
proof -
  have pf: "ParseFloat ''412.5'' = Inr 412.5"
    by (simp add: ParseFloat_def isDigit_def digitVal_def Let_def)
  have pi: "ParseInt ''7'' = Inr 7"
    by (simp add: ParseInt_def ParseUint_def isDigit_def digitVal_def Let_def)
  have s0: "storage (ex_world_at 0) = None"
    by (simp add: ex_world_at_def)
  have s1: "storage ex_world = Some (Memory \<lparr>data = Map.empty\<rparr>)"
    by (simp add: ex_world_def)
  have s2: "storage ex_world_down = Some (Redis ex_redis_down)" "\<not> healthyFlag ex_redis_down"
    by (simp_all add: ex_world_down_def ex_redis_down_def)
  have s3: "storage ex_world_stored =
      Some (Memory \<lparr>data = [''u1'' \<mapsto> \<lparr>Tokens = 412.5, LastAccess = 7\<rparr>]\<rparr>)"
    by (simp add: ex_world_stored_def)
  have s4: "storage ex_world_up = Some (Redis ex_redis_up)" "healthyFlag ex_redis_up"
    "replies (client ex_redis_up) = RedisValues [''412.5'', ''7''] # []"
    "clock ex_world_up = 1000"
    by (simp_all add: ex_world_up_def ex_redis_up_def)
  have c0: "tokens (fst (NewTokenBucket 1024 ''u1'' 1 (ex_world_at 0))) = 0"
    using NewTokenBucket_seed [of "ex_world_at 0" 1024 "''u1''" 1] s0 by blast
  have c1: "tokens (fst (NewTokenBucket 1024 ''u1'' 1 ex_world)) = 0"
    using NewTokenBucket_seed [of ex_world 1024 "''u1''" 1] s1 by simp
  have c2: "tokens (fst (NewTokenBucket 1024 ''u1'' 1 ex_world_down)) = MaxFloat64"
    using NewTokenBucket_seed [of ex_world_down 1024 "''u1''" 1] s2 by blast
  have c3: "tokens (fst (NewTokenBucket 1024 ''u1'' 1 ex_world_stored)) = 412.5 \<and>
      lastAccess (fst (NewTokenBucket 1024 ''u1'' 1 ex_world_stored)) = 7"
    using NewTokenBucket_seed [of ex_world_stored 1024 "''u1''" 1] s3 by simp
  have c4: "tokens (fst (NewTokenBucket 1024 ''u1'' 1 ex_world_up)) = 412.5 \<and>
      lastAccess (fst (NewTokenBucket 1024 ''u1'' 1 ex_world_up)) = 7"
    using NewTokenBucket_seed [of ex_world_up 1024 "''u1''" 1] s4(1-3) pf pi by blast
  have c5: "lastStorageUpdate (fst (NewTokenBucket 1024 ''u1'' 1 ex_world_up)) = 1000"
    using NewTokenBucket_seed [of ex_world_up 1024 "''u1''" 1] s4(4) by simp
  show ?thesis using c0 c1 c2 c3 c4 c5 by blast
qed

section \<open>The paced writer\<close>

text \<open>
  C9. In the wait loop of \<^verbatim>\<open>Write\<close> the sleep duration is never computed by dividing by
  a rate that is not positive: when the current rate of the bucket is at most 0 the
  divisor is 1024 bytes per second, and otherwise it is the rate. Every computed sleep
  duration is at least one millisecond, and it is the duration the loop sleeps after a
  rejected \<^verbatim>\<open>Allow\<close>.
\<close>

theorem wait_divisor_and_floor:
  "0 < currentRate tb \<and>
   (Rate tb \<le> 0 \<longrightarrow> currentRate tb = 1024) \<and>
   (0 < Rate tb \<longrightarrow> currentRate tb = Rate tb) \<and>
   (rate tb \<le> 0 \<longrightarrow>
      waitTime ccs tb =
        max Millisecond (toDuration ((real ccs - tokens tb) / 1024 * 1000000000))) \<and>
   (0 < rate tb \<longrightarrow>
      waitTime ccs tb =
        max Millisecond
          (toDuration ((real ccs - tokens tb) / real_of_int (rate tb) * 1000000000))) \<and>
   Millisecond \<le> waitTime ccs tb \<and>
   clock wld + Millisecond \<le> clock (Sleep (waitTime ccs tb) wld) \<and>
   waitForTokens ccs tb wld =
     (if fst (Allow (int ccs) tb wld) then Some (snd (Allow (int ccs) tb wld))
      else waitForTokens ccs (fst (snd (Allow (int ccs) tb wld)))
             (Sleep (waitTime ccs (fst (snd (Allow (int ccs) tb wld))))
                (snd (snd (Allow (int ccs) tb wld)))))"
proof -
  have ms: "Millisecond \<le> waitTime ccs tb"
    by (simp add: waitTime_def Let_def)
  have pos: "0 < waitTime ccs tb"
    using ms by (simp add: Millisecond_def)
  have sl: "clock wld + Millisecond \<le> clock (Sleep (waitTime ccs tb) wld)"
    using ms pos by (simp add: Sleep_def)
  have loop: "waitForTokens ccs tb wld =
     (if fst (Allow (int ccs) tb wld) then Some (snd (Allow (int ccs) tb wld))
      else waitForTokens ccs (fst (snd (Allow (int ccs) tb wld)))
             (Sleep (waitTime ccs (fst (snd (Allow (int ccs) tb wld))))
                (snd (snd (Allow (int ccs) tb wld)))))"
    by (subst waitForTokens.simps) (simp split: prod.splits)
  have w: "waitTime ccs tb =
      max Millisecond
        (toDuration ((real ccs - tokens tb) / real_of_int (currentRate tb) * real_of_int Second))"
    by (simp add: waitTime_def Tokens_of_def Let_def max_def)
  have sec: "real_of_int Second = 1000000000"
    by (simp add: Second_def)
  have lo: "rate tb \<le> 0 \<longrightarrow>
      waitTime ccs tb =
        max Millisecond (toDuration ((real ccs - tokens tb) / 1024 * 1000000000))"
  proof
    assume "rate tb \<le> 0"
    then have "real_of_int (currentRate tb) = 1024"
      by (simp add: currentRate_def Rate_def)
    then show "waitTime ccs tb =
        max Millisecond (toDuration ((real ccs - tokens tb) / 1024 * 1000000000))"
      by (simp only: w sec)
  qed
  have hi: "0 < rate tb \<longrightarrow>
      waitTime ccs tb =
        max Millisecond
          (toDuration ((real ccs - tokens tb) / real_of_int (rate tb) * 1000000000))"
  proof
    assume "0 < rate tb"
    then have "currentRate tb = rate tb"
      by (simp add: currentRate_def Rate_def)
    then show "waitTime ccs tb =
        max Millisecond
          (toDuration ((real ccs - tokens tb) / real_of_int (rate tb) * 1000000000))"
      by (simp only: w sec)
  qed
  have cr: "0 < currentRate tb \<and> (Rate tb \<le> 0 \<longrightarrow> currentRate tb = 1024) \<and>
      (0 < Rate tb \<longrightarrow> currentRate tb = Rate tb)"
    by (simp add: currentRate_def)
  show ?thesis
    using cr lo hi ms sl loop by blast
qed

theorem wait_divisor_and_floor_witness:
  "currentRate (ex_bucket 0) = 1024 \<and> currentRate (ex_bucket 2048) = 2048 \<and>
   waitTime 65536 (ex_bucket 0) = 64 * Second \<and>
   waitTime 15 (ex_bucket (- 5)) = 14648437 \<and>
   waitTime 2 (ex_bucket 1048576) = Millisecond \<and>
   waitTime 500 (ex_bucket 1000) = 500 * Millisecond \<and>
   waitForTokens 500 (ex_bucket 1000) (ex_world_at 0) =
     Some ((ex_bucket 1000)\<lparr>lastAccess := 500000000\<rparr>,
           (ex_world_at 500000000)\<lparr>allowCalls := 2\<rparr>)"
proof -
  note zero = wait_divisor_and_floor [of "ex_bucket 0" 65536 "ex_world_at 0"]
  note neg = wait_divisor_and_floor [of "ex_bucket (- 5)" 15 "ex_world_at 0"]
  note pos = wait_divisor_and_floor [of "ex_bucket 2048" 65536 "ex_world_at 0"]
  note fast = wait_divisor_and_floor [of "ex_bucket 1048576" 2 "ex_world_at 0"]
  note first = wait_divisor_and_floor [of "ex_bucket 1000" 500 "ex_world_at 0"]
  note second = wait_divisor_and_floor [of "ex_bucket 1000" 500
      "(ex_world_at 500000000)\<lparr>allowCalls := Suc 0\<rparr>"]
  have r: "Rate (ex_bucket 0) = 0" "Rate (ex_bucket 2048) = 2048"
    "rate (ex_bucket x) = x" "tokens (ex_bucket x) = 0" for x
    by (simp_all add: Rate_def ex_bucket_def)
  have c1: "currentRate (ex_bucket 0) = 1024" using zero r by simp
  have c2: "currentRate (ex_bucket 2048) = 2048" using pos r by simp
  have c3: "waitTime 65536 (ex_bucket 0) = 64 * Second"
    using zero by (simp add: r toDuration_def Let_def Second_def Millisecond_def
        maxDuration_def minDuration_def)
  have c4: "waitTime 15 (ex_bucket (- 5)) = 14648437"
    using neg by (simp add: r toDuration_def Let_def Millisecond_def
        maxDuration_def minDuration_def)
  have c5: "waitTime 2 (ex_bucket 1048576) = Millisecond"
    using fast by (simp add: r toDuration_def Let_def Millisecond_def
        maxDuration_def minDuration_def)
  have c6: "waitTime 500 (ex_bucket 1000) = 500 * Millisecond"
    using first by (simp add: r toDuration_def Let_def Millisecond_def
        maxDuration_def minDuration_def)
  have a1: "Allow 500 (ex_bucket 1000) (ex_world_at 0) =
      (False, ex_bucket 1000, (ex_world_at 0)\<lparr>allowCalls := Suc 0\<rparr>)"
    by (simp add: Allow_def ex_bucket_def ex_world_at_def Let_def Sub_def Seconds_def
        maxDuration_def minDuration_def)
  have s: "Sleep (500 * Millisecond) ((ex_world_at 0)\<lparr>allowCalls := Suc 0\<rparr>) =
      (ex_world_at 500000000)\<lparr>allowCalls := Suc 0\<rparr>"
    by (simp add: Sleep_def ex_world_at_def Millisecond_def)
  have a2: "Allow 500 (ex_bucket 1000) ((ex_world_at 500000000)\<lparr>allowCalls := Suc 0\<rparr>) =
      (True, (ex_bucket 1000)\<lparr>lastAccess := 500000000\<rparr>,
       (ex_world_at 500000000)\<lparr>allowCalls := 2\<rparr>)"
    by (simp add: Allow_def ex_bucket_def ex_world_at_def Let_def Sub_def Seconds_def
        maxDuration_def minDuration_def)
  have l2: "waitForTokens 500 (ex_bucket 1000) ((ex_world_at 500000000)\<lparr>allowCalls := Suc 0\<rparr>) =
      Some ((ex_bucket 1000)\<lparr>lastAccess := 500000000\<rparr>,
            (ex_world_at 500000000)\<lparr>allowCalls := 2\<rparr>)"
    using second by (simp add: a2)
  have c7: "waitForTokens 500 (ex_bucket 1000) (ex_world_at 0) =
     Some ((ex_bucket 1000)\<lparr>lastAccess := 500000000\<rparr>,
           (ex_world_at 500000000)\<lparr>allowCalls := 2\<rparr>)"
    using first by (simp add: a1 c6 s l2)
  show ?thesis using c1 c2 c3 c4 c5 c6 c7 by blast
qed

text \<open>
  C10. \<^verbatim>\<open>Write\<close> with an empty buffer returns \<open>(0, nil)\<close> without a call of
  \<^verbatim>\<open>Allow\<close> and without a write to the wrapped writer: the bucket, the clock and the
  count of \<^verbatim>\<open>Allow\<close> calls are as before, and so are the body and the count of writes
  of the wrapped writer. It still sends status 200 through \<^verbatim>\<open>WriteHeader\<close> if this
  writer has not written a status yet.
\<close>

theorem Write_empty:
  "Write [] rlw wld =
     Some ((0, None),
           (if wroteHeader rlw then rlw
            else rlw\<lparr>wroteHeader := True, w_inner := Sink_WriteHeader 200 (w_inner rlw)\<rparr>),
           wld) \<and>
   writeCalls (Sink_WriteHeader 200 (w_inner rlw)) = writeCalls (w_inner rlw) \<and>
   body (Sink_WriteHeader 200 (w_inner rlw)) = body (w_inner rlw) \<and>
   (status (w_inner rlw) = None \<longrightarrow> status (Sink_WriteHeader 200 (w_inner rlw)) = Some 200)"
  by (simp add: Write_def WriteHeader_def Sink_WriteHeader_def Let_def)

theorem Write_empty_witness:
  "Write [] (NewRateLimitWriter ex_sink (ex_bucket 1024)) (ex_world_at 0) =
     Some ((0, None),
           \<lparr>w_inner = ex_sink\<lparr>status := Some 200\<rparr>, bucket = ex_bucket 1024, wroteHeader = True\<rparr>,
           ex_world_at 0) \<and>
   status (Sink_WriteHeader 200 ex_sink) = Some 200"
proof -
  have s: "Sink_WriteHeader 200 ex_sink = ex_sink\<lparr>status := Some 200\<rparr>"
    by (simp add: Sink_WriteHeader_def ex_sink_def)
  have n: "status ex_sink = None"
    by (simp add: ex_sink_def)
  show ?thesis
    using Write_empty [of "NewRateLimitWriter ex_sink (ex_bucket 1024)" "ex_world_at 0"] n
    by (simp add: NewRateLimitWriter_def s)
qed

lemma waitForTokens_needs_capacity:
  assumes ret: "waitForTokens ccs tb wld = Some y"
  shows "\<not> real_of_int (rate tb) * burstMultiplier tb < real ccs"
proof (rule waitForTokens.raw_induct
    [where P = "\<lambda>ccs tb wld y. \<not> real_of_int (rate tb) * burstMultiplier tb < real ccs",
      OF _ ret])
  fix waitFor :: "nat \<Rightarrow> TokenBucket \<Rightarrow> World \<Rightarrow> (TokenBucket \<times> World) option"
    and ccs tb wld y
  assume IH: "\<And>ccs tb wld y. waitFor ccs tb wld = Some y
      \<Longrightarrow> \<not> real_of_int (rate tb) * burstMultiplier tb < real ccs"
    and unfolded: "(case Allow (int ccs) tb wld of
        (ok, tb1, wld1) \<Rightarrow>
          if ok then Some (tb1, wld1)
          else waitFor ccs tb1 (Sleep (waitTime ccs tb1) wld1)) = Some y"
  show "\<not> real_of_int (rate tb) * burstMultiplier tb < real ccs"
  proof
    assume starved: "real_of_int (rate tb) * burstMultiplier tb < real ccs"
    obtain ok tb1 wld1 where a: "Allow (int ccs) tb wld = (ok, tb1, wld1)"
      by (cases "Allow (int ccs) tb wld")
    have "\<not> ok"
      using Allow_starved [of tb "int ccs" wld] starved a by simp
    then have again: "waitFor ccs tb1 (Sleep (waitTime ccs tb1) wld1) = Some y"
      using unfolded a by simp
    have "rate tb1 = rate tb" and "burstMultiplier tb1 = burstMultiplier tb"
      using Allow_fields [of "int ccs" tb wld] a by simp_all
    then have "real_of_int (rate tb1) * burstMultiplier tb1 < real ccs"
      using starved by simp
    then show False
      using IH [OF again] by simp
  qed
qed

lemma waitForTokens_starved:
  "real_of_int (rate tb) * burstMultiplier tb < real ccs \<Longrightarrow> waitForTokens ccs tb wld = None"
  using waitForTokens_needs_capacity [of ccs tb wld] by (cases "waitForTokens ccs tb wld") auto

text \<open>
  Within the capacity of the bucket the wait loop ends: every rejected \<^verbatim>\<open>Allow\<close> is
  followed by a sleep of at least a millisecond, which adds at least \<open>rate / 1000\<close>
  tokens, so the missing tokens arrive after finitely many rounds.
\<close>

lemma Allow_rejected_clock:
  "\<not> fst (Allow n tb wld) \<Longrightarrow> clock (snd (snd (Allow n tb wld))) = clock wld"
  by (auto simp add: Allow_def Let_def split: option.splits prod.splits if_splits)

lemma waitTime_range: "Millisecond \<le> waitTime ccs tb \<and> waitTime ccs tb \<le> maxDuration"
  by (simp add: waitTime_def toDuration_def Let_def Millisecond_def maxDuration_def minDuration_def)

lemma Sub_after_Sleep:
  assumes "Millisecond \<le> d" and "d \<le> maxDuration"
  shows "Sub (clock (Sleep d wld)) (clock wld) = d"
  using assms by (simp add: Sleep_def Sub_def Let_def Millisecond_def minDuration_def)

lemma waitForTokens_admits_within:
  assumes "0 < rate tb" and "real ccs \<le> real_of_int (rate tb) * burstMultiplier tb"
    and "(real ccs - refilled tb wld) * 1000 \<le> real k * real_of_int (rate tb)"
  shows "\<exists>tb' wld'. waitForTokens ccs tb wld = Some (tb', wld') \<and>
           rate tb' = rate tb \<and> burstMultiplier tb' = burstMultiplier tb"
  using assms
proof (induction k arbitrary: tb wld)
  case 0
  then have "\<not> refilled tb wld < real ccs" by simp
  then have ok: "fst (Allow (int ccs) tb wld)" by (simp add: Allow_ok_iff)
  obtain tb1 wld1 where a: "Allow (int ccs) tb wld = (True, tb1, wld1)"
    using ok by (cases "Allow (int ccs) tb wld") auto
  have "rate tb1 = rate tb" "burstMultiplier tb1 = burstMultiplier tb"
    using Allow_fields [of "int ccs" tb wld] a by simp_all
  then show ?case
    by (subst waitForTokens.simps) (simp add: a)
next
  case (Suc k)
  show ?case
  proof (cases "fst (Allow (int ccs) tb wld)")
    case True
    obtain tb1 wld1 where a: "Allow (int ccs) tb wld = (True, tb1, wld1)"
      using True by (cases "Allow (int ccs) tb wld") auto
    have "rate tb1 = rate tb" "burstMultiplier tb1 = burstMultiplier tb"
      using Allow_fields [of "int ccs" tb wld] a by simp_all
    then show ?thesis
      by (subst waitForTokens.simps) (simp add: a)
  next
    case False
    obtain tb1 wld1 where a: "Allow (int ccs) tb wld = (False, tb1, wld1)"
      using False by (cases "Allow (int ccs) tb wld") auto
    let ?d = "waitTime ccs tb1"
    let ?w2 = "Sleep ?d wld1"
    have f: "rate tb1 = rate tb" "burstMultiplier tb1 = burstMultiplier tb"
      "lastAccess tb1 = clock wld"
      using Allow_fields [of "int ccs" tb wld] a by simp_all
    have short: "refilled tb wld < real ccs"
      using False by (simp add: Allow_ok_iff)
    have t1: "tokens tb1 = refilled tb wld"
      using Allow_tokens [of "int ccs" tb wld] a short by simp
    have c1: "clock wld1 = clock wld"
      using Allow_rejected_clock [OF False] a by simp
    have d: "Millisecond \<le> ?d" "?d \<le> maxDuration"
      using waitTime_range [of ccs tb1] by simp_all
    have el: "Sub (clock ?w2) (clock wld) = ?d"
      using Sub_after_Sleep [OF d, of wld1] c1 by simp
    have gain: "real_of_int (rate tb) / 1000 \<le> real_of_int (rate tb) * Seconds ?d"
    proof -
      have "(1::real) / 1000 \<le> Seconds ?d"
        using d(1) by (simp add: Seconds_def Millisecond_def)
      then have "real_of_int (rate tb) * (1 / 1000) \<le> real_of_int (rate tb) * Seconds ?d"
        using Suc.prems(1) by (simp only: mult_le_cancel_left_pos of_int_0_less_iff)
      then show ?thesis by simp
    qed
    have r2: "refilled tb1 ?w2 =
        min (refilled tb wld + real_of_int (rate tb) * Seconds ?d)
            (real_of_int (rate tb) * burstMultiplier tb)"
      by (simp add: refilled_def [of tb1] f t1 el)
    have bound: "(real ccs - refilled tb1 ?w2) * 1000 \<le> real k * real_of_int (rate tb1)"
    proof (cases "refilled tb wld + real_of_int (rate tb) * Seconds ?d
        \<le> real_of_int (rate tb) * burstMultiplier tb")
      case True
      then have "refilled tb1 ?w2 = refilled tb wld + real_of_int (rate tb) * Seconds ?d"
        using r2 by simp
      then have "(real ccs - refilled tb1 ?w2) * 1000 \<le>
          (real ccs - refilled tb wld) * 1000 - real_of_int (rate tb)"
        using gain by simp
      also have "\<dots> \<le> real (Suc k) * real_of_int (rate tb) - real_of_int (rate tb)"
        using Suc.prems(3) by simp
      also have "\<dots> = real k * real_of_int (rate tb)"
        by (simp add: algebra_simps)
      finally show ?thesis by (simp add: f)
    next
      case False
      then have "refilled tb1 ?w2 = real_of_int (rate tb) * burstMultiplier tb"
        using r2 by simp
      then have "(real ccs - refilled tb1 ?w2) * 1000 \<le> 0"
        using Suc.prems(2) by simp
      also have "\<dots> \<le> real k * real_of_int (rate tb1)"
        using Suc.prems(1) f by simp
      finally show ?thesis .
    qed
    have "\<exists>tb' wld'. waitForTokens ccs tb1 ?w2 = Some (tb', wld') \<and>
           rate tb' = rate tb1 \<and> burstMultiplier tb' = burstMultiplier tb1"
      by (rule Suc.IH) (use Suc.prems f bound in simp_all)
    moreover have "waitForTokens ccs tb wld = waitForTokens ccs tb1 ?w2"
      by (subst waitForTokens.simps) (simp add: a)
    ultimately show ?thesis by (simp add: f)
  qed
qed

lemma waitForTokens_admits:
  assumes "0 < rate tb" and "real ccs \<le> real_of_int (rate tb) * burstMultiplier tb"
  shows "\<exists>tb' wld'. waitForTokens ccs tb wld = Some (tb', wld') \<and>
           rate tb' = rate tb \<and> burstMultiplier tb' = burstMultiplier tb"
proof -
  obtain k :: nat where k: "(real ccs - refilled tb wld) * 1000 / real_of_int (rate tb) \<le> real k"
    using real_arch_simple by blast
  have "(real ccs - refilled tb wld) * 1000 \<le> real k * real_of_int (rate tb)"
    using k assms(1) by (simp add: pos_divide_le_eq)
  then show ?thesis
    by (rule waitForTokens_admits_within [OF assms])
qed


lemma Sink_Write_succeeds:
  assumes "script s = []"
  shows "fst (Sink_Write p s) = length p" and "fst (snd (Sink_Write p s)) = None"
    and "body (snd (snd (Sink_Write p s))) = body s @ p"
    and "script (snd (snd (Sink_Write p s))) = []"
  using assms by (simp_all add: Sink_Write_def Sink_WriteHeader_def Let_def)

lemma chunk_then_rest: "take n (drop k xs) @ drop (k + n) xs = drop k xs"
  by (metis add.commute append_take_drop_id drop_drop)

lemma Write_loop_delivers:
  assumes "0 < rate (bucket rlw)"
    and "real (min cs (length b)) \<le> real_of_int (rate (bucket rlw)) * burstMultiplier (bucket rlw)"
    and "0 < cs" and "script (w_inner rlw) = []" and "written \<le> length b"
  shows "\<exists>rlw' wld'. Write_loop b cs written rlw wld = Some ((length b, None), rlw', wld') \<and>
           body (w_inner rlw') = body (w_inner rlw) @ drop written b"
  using assms
proof (induction "length b - written" arbitrary: written rlw wld rule: less_induct)
  case less
  show ?case
  proof (cases "written < length b")
    case False
    then have "written = length b" using less.prems(5) by simp
    then show ?thesis
      by (subst Write_loop.simps) simp
  next
    case True
    let ?ccs = "currentChunkSize (length b) written cs"
    let ?chunk = "take ?ccs (drop written b)"
    have ccs: "?ccs = min cs (length b - written)"
      by (simp add: currentChunkSize_def Let_def min_def)
    have pos: "0 < ?ccs" using True less.prems(3) by (simp add: ccs)
    have "real ?ccs \<le> real (min cs (length b))" by (simp add: ccs)
    then have fits: "real ?ccs \<le>
        real_of_int (rate (bucket rlw)) * burstMultiplier (bucket rlw)"
      using less.prems(2) by linarith
    obtain tb1 wld1 where wait: "waitForTokens ?ccs (bucket rlw) wld = Some (tb1, wld1)"
      and tb1: "rate tb1 = rate (bucket rlw)" "burstMultiplier tb1 = burstMultiplier (bucket rlw)"
      using waitForTokens_admits [OF less.prems(1) fits, of wld] by blast
    have len: "length ?chunk = ?ccs" by (simp add: ccs)
    obtain n err snk1 where sw: "Sink_Write ?chunk (w_inner rlw) = (n, err, snk1)"
      by (cases "Sink_Write ?chunk (w_inner rlw)")
    have n: "n = ?ccs" and err: "err = None"
      and b1: "body snk1 = body (w_inner rlw) @ ?chunk" and s1: "script snk1 = []"
      using Sink_Write_succeeds [OF less.prems(4), of ?chunk] sw len by simp_all
    let ?rlw1 = "rlw\<lparr>bucket := tb1, w_inner := snk1\<rparr>"
    have step: "Write_loop b cs written rlw wld = Write_loop b cs (written + ?ccs) ?rlw1 wld1"
      by (subst Write_loop.simps) (simp add: True wait sw n err Let_def)
    have "\<exists>rlw' wld'. Write_loop b cs (written + ?ccs) ?rlw1 wld1 =
            Some ((length b, None), rlw', wld') \<and>
          body (w_inner rlw') = body (w_inner ?rlw1) @ drop (written + ?ccs) b"
    proof (rule less.hyps)
      show "length b - (written + ?ccs) < length b - written" using True pos by simp
      show "0 < rate (bucket ?rlw1)" using less.prems(1) tb1 by simp
      show "real (min cs (length b)) \<le>
          real_of_int (rate (bucket ?rlw1)) * burstMultiplier (bucket ?rlw1)"
        using less.prems(2) tb1 by simp
      show "0 < cs" by (rule less.prems(3))
      show "script (w_inner ?rlw1) = []" using s1 by simp
      show "written + ?ccs \<le> length b" using True by (simp add: ccs)
    qed
    then show ?thesis
      by (simp add: step b1 chunk_then_rest)
  qed
qed

lemma chunkSizeFor_pos: "0 < chunkSizeFor r"
  by (simp add: chunkSizeFor_def)

lemma Write_delivers_within_capacity:
  assumes "0 < rate (bucket rlw)"
    and "real (min (chunkSizeFor (rate (bucket rlw))) (length b)) \<le>
           real_of_int (rate (bucket rlw)) * burstMultiplier (bucket rlw)"
    and "script (w_inner rlw) = []"
  shows "\<exists>rlw' wld'. Write b rlw wld = Some ((length b, None), rlw', wld') \<and>
           body (w_inner rlw') = body (w_inner rlw) @ b"
proof (cases "b = []")
  case True
  then show ?thesis
    by (simp add: Write_def WriteHeader_def Sink_WriteHeader_def Let_def)
next
  case False
  let ?rlw = "if wroteHeader rlw then rlw else WriteHeader 200 rlw"
  have same: "bucket ?rlw = bucket rlw" "script (w_inner ?rlw) = []"
    "body (w_inner ?rlw) = body (w_inner rlw)"
    using assms(3) by (simp_all add: WriteHeader_def Sink_WriteHeader_def)
  have w: "Write b rlw wld = Write_loop b (chunkSizeFor (rate (bucket rlw))) 0 ?rlw wld"
    using False by (simp add: Write_def Rate_def Let_def WriteHeader_def)
  have "\<exists>rlw' wld'. Write_loop b (chunkSizeFor (rate (bucket rlw))) 0 ?rlw wld =
            Some ((length b, None), rlw', wld') \<and>
          body (w_inner rlw') = body (w_inner ?rlw) @ drop 0 b"
    by (rule Write_loop_delivers)
      (use assms same in \<open>simp_all only: chunkSizeFor_pos le0\<close>)
  then show ?thesis
    by (simp only: w same drop_0)
qed

lemma Sink_Write_scripted:
  assumes "script s = (k, e) # rest"
  shows "fst (Sink_Write p s) = min k (length p)" and "fst (snd (Sink_Write p s)) = e"
    and "body (snd (snd (Sink_Write p s))) = body s @ take (min k (length p)) p"
    and "script (snd (snd (Sink_Write p s))) = rest"
    and "writeCalls (snd (snd (Sink_Write p s))) = writeCalls s + 1"
  using assms by (simp_all add: Sink_Write_def Sink_WriteHeader_def Let_def)

lemma Write_loop_stops_at_error:
  assumes "written < length b"
    and "waitForTokens (currentChunkSize (length b) written cs) (bucket rlw) wld = Some (tb1, wld1)"
    and "script (w_inner rlw) = (k, Some e) # rest"
  shows "\<exists>snk1. Write_loop b cs written rlw wld =
           Some ((written + min k (currentChunkSize (length b) written cs), Some e),
                 rlw\<lparr>bucket := tb1, w_inner := snk1\<rparr>, wld1) \<and>
         script snk1 = rest \<and> writeCalls snk1 = writeCalls (w_inner rlw) + 1 \<and>
         body snk1 = body (w_inner rlw) @
           take (min k (currentChunkSize (length b) written cs)) (drop written b)"
proof -
  let ?ccs = "currentChunkSize (length b) written cs"
  let ?chunk = "take ?ccs (drop written b)"
  have ccs: "?ccs = min cs (length b - written)"
    by (simp add: currentChunkSize_def Let_def min_def)
  have len: "length ?chunk = ?ccs" by (simp add: ccs)
  obtain n err snk1 where sw: "Sink_Write ?chunk (w_inner rlw) = (n, err, snk1)"
    by (cases "Sink_Write ?chunk (w_inner rlw)")
  have r: "n = min k ?ccs" "err = Some e" "script snk1 = rest"
    "writeCalls snk1 = writeCalls (w_inner rlw) + 1"
    "body snk1 = body (w_inner rlw) @ take (min k ?ccs) ?chunk"
    using Sink_Write_scripted [OF assms(3), of ?chunk] sw len by simp_all
  have t: "take (min k ?ccs) ?chunk = take (min k ?ccs) (drop written b)"
    by (simp add: min_def)
  have "Write_loop b cs written rlw wld =
      Some ((written + min k ?ccs, Some e), rlw\<lparr>bucket := tb1, w_inner := snk1\<rparr>, wld1)"
    by (subst Write_loop.simps) (simp add: assms(1,2) sw r(1,2) Let_def)
  then show ?thesis using r t by auto
qed

lemma Write_loop_step:
  "written < length b \<Longrightarrow>
     Write_loop b cs written rlw wld =
       Option.bind (waitForTokens (min cs (length b - written)) (bucket rlw) wld)
         (\<lambda>(tb1, wld1).
            case Sink_Write (take (min cs (length b - written)) (drop written b)) (w_inner rlw) of
              (n, err, snk1) \<Rightarrow>
                if err \<noteq> None
                then Some ((written + n, err), rlw\<lparr>bucket := tb1, w_inner := snk1\<rparr>, wld1)
                else Write_loop b cs (written + n) (rlw\<lparr>bucket := tb1, w_inner := snk1\<rparr>) wld1)"
  by (subst Write_loop.simps) (simp add: currentChunkSize_def Let_def min_def)

lemma Write_loop_done:
  "length b \<le> written \<Longrightarrow> Write_loop b cs written rlw wld = Some ((written, None), rlw, wld)"
  by (subst Write_loop.simps) simp

lemma waitForTokens_step:
  "waitForTokens ccs tb wld =
     (if fst (Allow (int ccs) tb wld) then Some (snd (Allow (int ccs) tb wld))
      else waitForTokens ccs (fst (snd (Allow (int ccs) tb wld)))
             (Sleep (waitTime ccs (fst (snd (Allow (int ccs) tb wld))))
                (snd (snd (Allow (int ccs) tb wld)))))"
  by (subst waitForTokens.simps) (simp split: prod.splits)

lemma chunksOf_step:
  "0 < cs \<Longrightarrow> written < length b \<Longrightarrow>
     chunksOf cs (drop written b) =
       take (min cs (length b - written)) (drop written b) #
       chunksOf cs (drop (written + min cs (length b - written)) b)"
proof -
  assume cs: "0 < cs" and w: "written < length b"
  have t: "take (min cs (length b - written)) (drop written b) = take cs (drop written b)"
    by (simp add: min_def)
  have d: "drop (written + min cs (length b - written)) b = drop cs (drop written b)"
    by (simp add: min_def add.commute)
  show ?thesis
    using cs w by (subst chunksOf.simps) (simp add: t d)
qed

lemma Write_loop_chunks:
  assumes "0 < rate (bucket rlw)"
    and "real (min cs (length b)) \<le> real_of_int (rate (bucket rlw)) * burstMultiplier (bucket rlw)"
    and "0 < cs" and "script (w_inner rlw) = []" and "written \<le> length b"
  shows "\<exists>rlw' wld'. Write_loop b cs written rlw wld = Some ((length b, None), rlw', wld') \<and>
           w_inner rlw' = fold sinkWrite (chunksOf cs (drop written b)) (w_inner rlw)"
  using assms
proof (induction "length b - written" arbitrary: written rlw wld rule: less_induct)
  case less
  show ?case
  proof (cases "written < length b")
    case False
    then have "written = length b" using less.prems(5) by simp
    then show ?thesis
      by (simp add: Write_loop_done chunksOf.simps)
  next
    case True
    let ?ccs = "min cs (length b - written)"
    let ?chunk = "take ?ccs (drop written b)"
    have pos: "0 < ?ccs" using True less.prems(3) by simp
    have "real ?ccs \<le> real (min cs (length b))" by simp
    then have fits: "real ?ccs \<le>
        real_of_int (rate (bucket rlw)) * burstMultiplier (bucket rlw)"
      using less.prems(2) by linarith
    obtain tb1 wld1 where wait: "waitForTokens ?ccs (bucket rlw) wld = Some (tb1, wld1)"
      and tb1: "rate tb1 = rate (bucket rlw)" "burstMultiplier tb1 = burstMultiplier (bucket rlw)"
      using waitForTokens_admits [OF less.prems(1) fits, of wld] by blast
    have len: "length ?chunk = ?ccs" by simp
    obtain n err snk1 where sw: "Sink_Write ?chunk (w_inner rlw) = (n, err, snk1)"
      by (cases "Sink_Write ?chunk (w_inner rlw)")
    have n: "n = ?ccs" and err: "err = None" and s1: "script snk1 = []"
      using Sink_Write_succeeds [OF less.prems(4), of ?chunk] sw len by simp_all
    have snk1: "snk1 = sinkWrite ?chunk (w_inner rlw)"
      by (simp add: sinkWrite_def sw)
    let ?rlw1 = "rlw\<lparr>bucket := tb1, w_inner := snk1\<rparr>"
    have step: "Write_loop b cs written rlw wld = Write_loop b cs (written + ?ccs) ?rlw1 wld1"
      by (simp add: Write_loop_step [OF True] wait sw n err)
    have "\<exists>rlw' wld'. Write_loop b cs (written + ?ccs) ?rlw1 wld1 =
            Some ((length b, None), rlw', wld') \<and>
          w_inner rlw' = fold sinkWrite (chunksOf cs (drop (written + ?ccs) b)) (w_inner ?rlw1)"
    proof (rule less.hyps)
      show "length b - (written + ?ccs) < length b - written" using True pos by simp
      show "0 < rate (bucket ?rlw1)" using less.prems(1) tb1 by simp
      show "real (min cs (length b)) \<le>
          real_of_int (rate (bucket ?rlw1)) * burstMultiplier (bucket ?rlw1)"
        using less.prems(2) tb1 by simp
      show "0 < cs" by (rule less.prems(3))
      show "script (w_inner ?rlw1) = []" using s1 by simp
      show "written + ?ccs \<le> length b" using True by simp
    qed
    then show ?thesis
      by (simp add: step chunksOf_step [OF less.prems(3) True] snk1)
  qed
qed

lemma Write_chunks:
  assumes "0 < rate (bucket rlw)"
    and "real (min (chunkSizeFor (rate (bucket rlw))) (length b)) \<le>
           real_of_int (rate (bucket rlw)) * burstMultiplier (bucket rlw)"
    and "script (w_inner rlw) = []"
  shows "\<exists>rlw' wld'. Write b rlw wld = Some ((length b, None), rlw', wld') \<and>
           w_inner rlw' =
             fold sinkWrite (chunksOf (chunkSizeFor (rate (bucket rlw))) b)
               (w_inner (if wroteHeader rlw then rlw else WriteHeader 200 rlw))"
proof (cases "b = []")
  case True
  then show ?thesis
    by (simp add: Write_def chunksOf.simps Let_def)
next
  case False
  let ?rlw = "if wroteHeader rlw then rlw else WriteHeader 200 rlw"
  have same: "bucket ?rlw = bucket rlw" "script (w_inner ?rlw) = []"
    using assms(3) by (simp_all add: WriteHeader_def Sink_WriteHeader_def)
  have w: "Write b rlw wld = Write_loop b (chunkSizeFor (rate (bucket rlw))) 0 ?rlw wld"
    using False by (simp add: Write_def Rate_def Let_def WriteHeader_def)
  have "\<exists>rlw' wld'. Write_loop b (chunkSizeFor (rate (bucket rlw))) 0 ?rlw wld =
            Some ((length b, None), rlw', wld') \<and>
          w_inner rlw' =
            fold sinkWrite (chunksOf (chunkSizeFor (rate (bucket rlw))) (drop 0 b)) (w_inner ?rlw)"
    by (rule Write_loop_chunks)
      (use assms same in \<open>simp_all only: chunkSizeFor_pos le0\<close>)
  then show ?thesis
    by (simp only: w drop_0)
qed

lemma ex_chunks:
  "chunksOf 65536 (replicate 100000 (CHR ''a'')) =
     [replicate 65536 (CHR ''a''), replicate 34464 (CHR ''a'')]"
  by (simp add: chunksOf.simps [of 65536])

text \<open>
  C7. \<^verbatim>\<open>Write\<close> selects its chunk size from the current rate of the bucket alone:
  65536 bytes for rates below 10 MiB/s, 262144 bytes for rates from 10 MiB/s to below
  50 MiB/s, 524288 bytes from 50 MiB/s on; the last chunk is cut to the bytes that remain.
  Each round of the loop asks \<^verbatim>\<open>Allow\<close> for the smaller of the chunk size and the
  remaining bytes and passes a slice of exactly that length to the wrapped writer, so
  that, when the writes succeed and the chunks fit the bucket, the wrapped writer
  receives the buffer cut into chunks of the chunk size, one write per chunk.
\<close>

theorem chunk_size_from_rate:
  "chunkSizeFor r =
     (if r < 10 * 1024 * 1024 then 65536 else if r < 50 * 1024 * 1024 then 262144 else 524288) \<and>
   currentChunkSize len written (chunkSizeFor r) = min (chunkSizeFor r) (len - written) \<and>
   (b \<noteq> [] \<longrightarrow>
      Write b rlw wld =
        Write_loop b (chunkSizeFor (rate (bucket rlw))) 0
          (if wroteHeader rlw then rlw else WriteHeader 200 rlw) wld) \<and>
   (written < length b \<longrightarrow>
      Write_loop b cs written rlw wld =
        Option.bind (waitForTokens (min cs (length b - written)) (bucket rlw) wld)
          (\<lambda>(tb1, wld1).
             case Sink_Write (take (min cs (length b - written)) (drop written b)) (w_inner rlw) of
               (n, err, snk1) \<Rightarrow>
                 if err \<noteq> None
                 then Some ((written + n, err), rlw\<lparr>bucket := tb1, w_inner := snk1\<rparr>, wld1)
                 else Write_loop b cs (written + n) (rlw\<lparr>bucket := tb1, w_inner := snk1\<rparr>) wld1)) \<and>
   (length b \<le> written \<longrightarrow>
      Write_loop b cs written rlw wld = Some ((written, None), rlw, wld)) \<and>
   waitForTokens ccs tb wld =
     (if fst (Allow (int ccs) tb wld) then Some (snd (Allow (int ccs) tb wld))
      else waitForTokens ccs (fst (snd (Allow (int ccs) tb wld)))
             (Sleep (waitTime ccs (fst (snd (Allow (int ccs) tb wld))))
                (snd (snd (Allow (int ccs) tb wld))))) \<and>
   (0 < rate (bucket rlw) \<and>
    real (min (chunkSizeFor (rate (bucket rlw))) (length b)) \<le>
      real_of_int (rate (bucket rlw)) * burstMultiplier (bucket rlw) \<and>
    script (w_inner rlw) = [] \<longrightarrow>
      (\<exists>rlw' wld'. Write b rlw wld = Some ((length b, None), rlw', wld') \<and>
         w_inner rlw' =
           fold sinkWrite (chunksOf (chunkSizeFor (rate (bucket rlw))) b)
             (w_inner (if wroteHeader rlw then rlw else WriteHeader 200 rlw))))"
proof (intro conjI impI)
  show "chunkSizeFor r =
     (if r < 10 * 1024 * 1024 then 65536 else if r < 50 * 1024 * 1024 then 262144 else 524288)"
    by (simp add: chunkSizeFor_def)
  show "currentChunkSize len written (chunkSizeFor r) = min (chunkSizeFor r) (len - written)"
    by (simp add: currentChunkSize_def Let_def min_def)
  show "Write b rlw wld =
      Write_loop b (chunkSizeFor (rate (bucket rlw))) 0
        (if wroteHeader rlw then rlw else WriteHeader 200 rlw) wld" if "b \<noteq> []"
    using that by (simp add: Write_def WriteHeader_def Rate_def Let_def)
  show "Write_loop b cs written rlw wld =
        Option.bind (waitForTokens (min cs (length b - written)) (bucket rlw) wld)
          (\<lambda>(tb1, wld1).
             case Sink_Write (take (min cs (length b - written)) (drop written b)) (w_inner rlw) of
               (n, err, snk1) \<Rightarrow>
                 if err \<noteq> None
                 then Some ((written + n, err), rlw\<lparr>bucket := tb1, w_inner := snk1\<rparr>, wld1)
                 else Write_loop b cs (written + n) (rlw\<lparr>bucket := tb1, w_inner := snk1\<rparr>) wld1)"
    if "written < length b"
    by (rule Write_loop_step [OF that])
  show "Write_loop b cs written rlw wld = Some ((written, None), rlw, wld)"
    if "length b \<le> written"
    by (rule Write_loop_done [OF that])
  show "waitForTokens ccs tb wld =
     (if fst (Allow (int ccs) tb wld) then Some (snd (Allow (int ccs) tb wld))
      else waitForTokens ccs (fst (snd (Allow (int ccs) tb wld)))
             (Sleep (waitTime ccs (fst (snd (Allow (int ccs) tb wld))))
                (snd (snd (Allow (int ccs) tb wld)))))"
    by (rule waitForTokens_step)
  show "\<exists>rlw' wld'. Write b rlw wld = Some ((length b, None), rlw', wld') \<and>
         w_inner rlw' =
           fold sinkWrite (chunksOf (chunkSizeFor (rate (bucket rlw))) b)
             (w_inner (if wroteHeader rlw then rlw else WriteHeader 200 rlw))"
    if "0 < rate (bucket rlw) \<and>
      real (min (chunkSizeFor (rate (bucket rlw))) (length b)) \<le>
        real_of_int (rate (bucket rlw)) * burstMultiplier (bucket rlw) \<and>
      script (w_inner rlw) = []"
    using that by (intro Write_chunks) simp_all
qed

theorem chunk_size_from_rate_witness:
  "chunkSizeFor 1048576 = 65536 \<and> chunkSizeFor 10485760 = 262144 \<and>
   chunkSizeFor 52428800 = 524288 \<and>
   currentChunkSize 100000 65536 (chunkSizeFor 1048576) = 34464 \<and>
   Write ''hello'' (NewRateLimitWriter ex_sink (ex_bucket 1048576)) (ex_world_at 0) =
     Write_loop ''hello'' 65536 0
       (WriteHeader 200 (NewRateLimitWriter ex_sink (ex_bucket 1048576))) (ex_world_at 0) \<and>
   Write_loop ''hello'' 65536 5 (NewRateLimitWriter ex_sink (ex_bucket 1048576)) (ex_world_at 0) =
     Some ((5, None), NewRateLimitWriter ex_sink (ex_bucket 1048576), ex_world_at 0) \<and>
   Write_loop (replicate 100000 (CHR ''a'')) 65536 65536
       (NewRateLimitWriter ex_sink (ex_bucket 1048576)) (ex_world_at 0) =
     Option.bind (waitForTokens 34464 (ex_bucket 1048576) (ex_world_at 0))
       (\<lambda>(tb1, wld1).
          case Sink_Write (replicate 34464 (CHR ''a'')) ex_sink of
            (n, err, snk1) \<Rightarrow>
              if err \<noteq> None
              then Some ((65536 + n, err),
                     (NewRateLimitWriter ex_sink (ex_bucket 1048576))
                       \<lparr>bucket := tb1, w_inner := snk1\<rparr>, wld1)
              else Write_loop (replicate 100000 (CHR ''a'')) 65536 (65536 + n)
                     ((NewRateLimitWriter ex_sink (ex_bucket 1048576))
                        \<lparr>bucket := tb1, w_inner := snk1\<rparr>) wld1) \<and>
   (\<exists>rlw' wld'.
      Write (replicate 100000 (CHR ''a'')) (NewRateLimitWriter ex_sink (ex_bucket 1048576))
        (ex_world_at 0) = Some ((100000, None), rlw', wld') \<and>
      writeCalls (w_inner rlw') = 2 \<and>
      body (w_inner rlw') = replicate 65536 (CHR ''a'') @ replicate 34464 (CHR ''a''))"
proof -
  let ?R = "NewRateLimitWriter ex_sink (ex_bucket 1048576)"
  let ?B = "replicate 100000 (CHR ''a'')"
  note low = chunk_size_from_rate [where r = 1048576 and len = 100000 and written = 65536
      and b = "''hello''" and rlw = ?R and wld = "ex_world_at 0"]
  note mid = chunk_size_from_rate [where r = 10485760]
  note high = chunk_size_from_rate [where r = 52428800]
  note finished = chunk_size_from_rate [where b = "''hello''" and written = 5 and cs = 65536
      and rlw = ?R and wld = "ex_world_at 0"]
  note cut = chunk_size_from_rate [where b = ?B and written = 65536 and cs = 65536
      and rlw = ?R and wld = "ex_world_at 0"]
  note whole = chunk_size_from_rate [where b = ?B and rlw = ?R and wld = "ex_world_at 0"]
  have c1: "chunkSizeFor 1048576 = 65536" using low by simp
  have c2: "chunkSizeFor 10485760 = 262144" using mid by simp
  have c3: "chunkSizeFor 52428800 = 524288" using high by simp
  have "currentChunkSize 100000 65536 (chunkSizeFor 1048576) =
      min (chunkSizeFor 1048576) (100000 - 65536)"
    using low by blast
  then have c4: "currentChunkSize 100000 65536 (chunkSizeFor 1048576) = 34464"
    by (simp add: c1)
  have r: "rate (ex_bucket 1048576) = 1048576" "\<not> wroteHeader ?R"
    "bucket ?R = ex_bucket 1048576" "w_inner ?R = ex_sink"
    "burstMultiplier (ex_bucket 1048576) = 1" "script ex_sink = []"
    by (simp_all add: NewRateLimitWriter_def ex_bucket_def ex_sink_def)
  have c5: "Write ''hello'' ?R (ex_world_at 0) =
     Write_loop ''hello'' 65536 0 (WriteHeader 200 ?R) (ex_world_at 0)"
    using low r(1,2,3) c1 by simp
  have c6: "Write_loop ''hello'' 65536 5 ?R (ex_world_at 0) = Some ((5, None), ?R, ex_world_at 0)"
    using finished by simp
  have c7: "Write_loop ?B 65536 65536 ?R (ex_world_at 0) =
     Option.bind (waitForTokens 34464 (ex_bucket 1048576) (ex_world_at 0))
       (\<lambda>(tb1, wld1).
          case Sink_Write (replicate 34464 (CHR ''a'')) ex_sink of
            (n, err, snk1) \<Rightarrow>
              if err \<noteq> None
              then Some ((65536 + n, err), ?R\<lparr>bucket := tb1, w_inner := snk1\<rparr>, wld1)
              else Write_loop ?B 65536 (65536 + n) (?R\<lparr>bucket := tb1, w_inner := snk1\<rparr>) wld1)"
    using cut by (simp add: r(3,4))
  have fits: "0 < rate (bucket ?R) \<and>
      real (min (chunkSizeFor (rate (bucket ?R))) (length ?B)) \<le>
        real_of_int (rate (bucket ?R)) * burstMultiplier (bucket ?R) \<and>
      script (w_inner ?R) = []"
    by (simp add: r c1)
  have sent: "fold sinkWrite (chunksOf (chunkSizeFor (rate (bucket ?R))) ?B)
      (w_inner (if wroteHeader ?R then ?R else WriteHeader 200 ?R)) =
      ex_sink\<lparr>status := Some 200, writeCalls := 2,
        body := replicate 65536 (CHR ''a'') @ replicate 34464 (CHR ''a'')\<rparr>"
    by (simp add: r(1,3) c1 ex_chunks sinkWrite_def Sink_Write_def Sink_WriteHeader_def
        WriteHeader_def NewRateLimitWriter_def ex_sink_def)
  obtain rlw' wld' where w: "Write ?B ?R (ex_world_at 0) = Some ((length ?B, None), rlw', wld')"
    and s: "w_inner rlw' = fold sinkWrite (chunksOf (chunkSizeFor (rate (bucket ?R))) ?B)
      (w_inner (if wroteHeader ?R then ?R else WriteHeader 200 ?R))"
    using whole fits by blast
  have c8: "\<exists>rlw' wld'. Write ?B ?R (ex_world_at 0) = Some ((100000, None), rlw', wld') \<and>
      writeCalls (w_inner rlw') = 2 \<and>
      body (w_inner rlw') = replicate 65536 (CHR ''a'') @ replicate 34464 (CHR ''a'')"
    using w s by (simp add: sent)
  show ?thesis using c1 c2 c3 c4 c5 c6 c7 c8 by blast
qed

text \<open>
  C6. For every buffer \<open>b\<close>, \<^verbatim>\<open>Write(b)\<close> delivers the bytes of \<open>b\<close>, in order, to the
  wrapped writer and returns \<open>(len(b), nil)\<close> when every underlying write succeeds; at
  an error of an underlying write it returns the bytes written so far with that error.

  The code does so when every chunk fits the capacity \<open>rate * burstMultiplier\<close> of the
  bucket (\<open>Write_delivers_within_capacity\<close>, \<open>Write_loop_stops_at_error\<close>), but it does
  not return for every buffer. A chunk larger than the capacity is never admitted, since
  \<^verbatim>\<open>Allow\<close> clamps the balance to the capacity before it compares: with rate 1000,
  multiplier 1 and a buffer of 2000 bytes the wait loop runs for ever and nothing is
  written.
\<close>

theorem Write_never_returns:
  "Write (replicate 2000 (CHR ''a'')) (NewRateLimitWriter ex_sink (ex_bucket 1000))
     (ex_world_at 0) = None"
proof -
  have s: "waitForTokens 2000 (ex_bucket 1000) (ex_world_at 0) = None"
    by (rule waitForTokens_starved) (simp add: ex_bucket_def)
  have r: "rate (ex_bucket 1000) = 1000"
    by (simp add: ex_bucket_def)
  show ?thesis
    by (simp add: Write_def NewRateLimitWriter_def WriteHeader_def Let_def chunkSizeFor_def
        Rate_def Write_loop.simps [of _ _ 0] currentChunkSize_def s r)
qed

section \<open>The handler\<close>

lemma crw_apply_ResponseWriter:
  "ResponseWriter (crw_apply op crw) =
     (if isWrite op then sink_apply op (ResponseWriter crw) else ResponseWriter crw)"
  by (cases op) (simp_all add: crw_WriteHeader_def crw_Write_def Let_def split: prod.splits)

lemma capture_forwards_writes_only:
  "ResponseWriter (fold crw_apply ops crw) =
     fold sink_apply (filter isWrite ops) (ResponseWriter crw)"
  by (induction ops arbitrary: crw) (simp_all add: crw_apply_ResponseWriter)

lemma passthrough_sink:
  assumes "next r = (ops, None)"
    and "Header_Get (header (fold crw_apply ops (newCapture snk))) ''X-Accel-Redirect'' = []"
  shows "ServeHTTP rl snk r next wld =
     \<lparr>ret = None, out = fold sink_apply (filter isWrite ops) snk, handler = rl, world = wld,
      dispatched = [r]\<rparr>"
proof -
  have "ResponseWriter (fold crw_apply ops (newCapture snk)) =
      fold sink_apply (filter isWrite ops) snk"
    by (simp add: capture_forwards_writes_only newCapture_def)
  then show ?thesis
    using assms by (simp add: ServeHTTP_def Let_def)
qed

text \<open>
  C1. For a first-pass response without the header \<^verbatim>\<open>X-Accel-Redirect\<close> the handler
  makes no second dispatch, and the client receives the status code, the headers and the
  body that the wrapped chain produced: the captured status and headers are released to
  the real response writer.

  The code makes no second dispatch, but it never releases what it captured. The
  capturing writer keeps the status code and the headers to itself and forwards the body
  writes only, so a response \<open>404\<close> with a \<^verbatim>\<open>Content-Type\<close> header and the body
  \<open>Not Found\<close> reaches the client as status \<open>200\<close> without that header.
\<close>

theorem passthrough_drops_status_and_headers:
  "ret (ServeHTTP ex_rl ex_sink ex_request ex_notfound ex_world) = None \<and>
   dispatched (ServeHTTP ex_rl ex_sink ex_request ex_notfound ex_world) = [ex_request] \<and>
   status (out (ServeHTTP ex_rl ex_sink ex_request ex_notfound ex_world)) = Some 200 \<and>
   sentHeader (out (ServeHTTP ex_rl ex_sink ex_request ex_notfound ex_world)) ''Content-Type''
     = None \<and>
   body (out (ServeHTTP ex_rl ex_sink ex_request ex_notfound ex_world)) = ''Not Found''"
  by (simp add: ServeHTTP_def ex_notfound_def ex_sink_def newCapture_def crw_WriteHeader_def
      crw_Write_def Sink_Write_def Sink_WriteHeader_def Header_Get_def Header_Set_def Let_def
      ex_rl_def)

lemma getOrCreateBucket_ref:
  "fst (getOrCreateBucket uid n rl wld) = Inr uid \<and>
   (\<exists>tb. limiters (fst (snd (getOrCreateBucket uid n rl wld))) uid = Some tb \<and> rate tb = n)"
  by (auto simp add: getOrCreateBucket_def NewTokenBucket_def SetRate_def Rate_def Let_def
      split: option.splits prod.splits sum.splits)

lemma attachBucket_ctx:
  "fst (attachBucket uid rs r rl wld) =
     (if uid = [] then ctxBucket r
      else case ParseInt rs of Inl e \<Rightarrow> ctxBucket r | Inr n \<Rightarrow> Some uid)"
proof (cases "uid \<noteq> [] \<and> rs \<noteq> []")
  case False
  then show ?thesis by (auto simp add: attachBucket_def ParseInt_def)
next
  case True
  show ?thesis
  proof (cases "ParseInt rs")
    case (Inl e)
    then show ?thesis using True by (simp add: attachBucket_def)
  next
    case (Inr n)
    obtain rl1 wld1 where g: "getOrCreateBucket uid n rl wld = (Inr uid, rl1, wld1)"
      using getOrCreateBucket_ref [of uid n rl wld]
      by (cases "getOrCreateBucket uid n rl wld") auto
    show ?thesis using True Inr g by (simp add: attachBucket_def)
  qed
qed

lemma attachBucket_registry:
  assumes "uid \<noteq> []" and "ParseInt rs = Inr n"
  shows "\<exists>tb. limiters (fst (snd (attachBucket uid rs r rl wld))) uid = Some tb \<and> rate tb = n"
proof -
  have rs: "rs \<noteq> []"
    using assms(2) by (auto simp add: ParseInt_def)
  obtain rl1 wld1 where g: "getOrCreateBucket uid n rl wld = (Inr uid, rl1, wld1)"
    using getOrCreateBucket_ref [of uid n rl wld]
    by (cases "getOrCreateBucket uid n rl wld") auto
  have "\<exists>tb. limiters rl1 uid = Some tb \<and> rate tb = n"
    using getOrCreateBucket_ref [of uid n rl wld] g by simp
  then show ?thesis
    using assms rs g by (simp add: attachBucket_def)
qed

lemma ex_signal_headers:
  "Header_Get (header (fold crw_apply (ex_signal rateStr) (newCapture snk))) ''X-Accel-Redirect''
     = ''/f''"
  "Header_Get (header (fold crw_apply (ex_signal rateStr) (newCapture snk))) ''X-Accel-User-ID''
     = ''u1''"
  "Header_Get (header (fold crw_apply (ex_signal rateStr) (newCapture snk))) ''X-Accel-RateLimit''
     = rateStr"
  by (simp_all add: ex_signal_def newCapture_def Header_Get_def Header_Set_def crw_WriteHeader_def
      split: list.splits)

lemma ParseInt_examples:
  "ParseInt ''0'' = Inr 0"
  "ParseInt ''-5'' = Inr (- 5)"
  "ParseInt ''1048576'' = Inr 1048576"
  "ParseInt ''abc'' = Inl ErrSyntax"
  "ParseInt ''1.5'' = Inl ErrSyntax"
  "ParseInt ''9223372036854775808'' = Inl ErrRange"
  by (simp_all add: ParseInt_def ParseUint_def isDigit_def digitVal_def Let_def)

text \<open>
  C2, as the code has it. The claim has the redirect go on without a bucket whenever the
  rate header is not a positive integer, naming \<open>0\<close> and negative numbers. The code
  attaches a bucket for every value that \<^verbatim>\<open>strconv.ParseInt\<close> accepts: for the rate
  header \<open>0\<close> the derived request carries the bucket of the user, with rate 0.
\<close>

theorem zero_rate_attaches_bucket:
  "ParseInt ''0'' = Inr 0 \<and>
   map ctxBucket (dispatched (ServeHTTP ex_rl ex_sink ex_request (ex_backend ''0'') ex_world))
     = [None, Some ''u1''] \<and>
   map_option rate
     (limiters (handler (ServeHTTP ex_rl ex_sink ex_request (ex_backend ''0'') ex_world)) ''u1'')
     = Some 0"
proof -
  have p: "ParseInt ''0'' = Inr 0"
    by (simp add: ParseInt_examples)
  have a: "attachBucket ''u1'' ''0'' ex_request ex_rl ex_world =
      (Some ''u1'', ex_rl\<lparr>limiters := [''u1'' \<mapsto> ex_bucket 0]\<rparr>, ex_world)"
    by (simp add: attachBucket_def p getOrCreateBucket_def NewTokenBucket_def Storage_Get_def
        Memory_Get_def ex_rl_def ex_world_def ex_bucket_def ex_request_def)
  have "ServeHTTP ex_rl ex_sink ex_request (ex_backend ''0'') ex_world =
      \<lparr>ret = None,
       out = fold sink_apply [WriteOp ''data'']
               (ResponseWriter (fold crw_apply (ex_signal ''0'') (newCapture ex_sink))),
       handler = ex_rl\<lparr>limiters := [''u1'' \<mapsto> ex_bucket 0]\<rparr>, world = ex_world,
       dispatched = [ex_request, redirectTarget ex_request ''/f'' (Some ''u1'')]\<rparr>"
    using ex_signal_headers [of "''0''" ex_sink] a
    by (simp add: ServeHTTP_def Let_def ex_backend_def ex_request_def ex_rl_def redirectTarget_def)
  then show ?thesis
    using p by (simp add: redirectTarget_def ex_request_def ex_bucket_def)
qed

text \<open>
  C2, amended. Whenever the captured response carries \<^verbatim>\<open>X-Accel-Redirect\<close> and a
  user-ID header, the handler performs the internal redirect. When the value of the rate
  header is not accepted by \<^verbatim>\<open>strconv.ParseInt\<close> as a base-10 \<^verbatim>\<open>int64\<close> (it is empty, not
  a number, or out of range), the derived request keeps the context of the original
  request and no bucket is attached. When the value is accepted, whatever its sign, the
  bucket of the user is attached and has that rate.
\<close>

theorem redirect_attaches_iff_rate_parses:
  assumes first: "nxt r = (ops, None)"
    and accel: "Header_Get (header (fold crw_apply ops (newCapture snk))) ''X-Accel-Redirect''
        = accel" "accel \<noteq> []"
    and uid: "Header_Get (header (fold crw_apply ops (newCapture snk))) (HeaderUserID rl) = uid"
      "uid \<noteq> []"
    and rs: "Header_Get (header (fold crw_apply ops (newCapture snk))) (HeaderRateLimit rl) = rs"
  shows "dispatched (ServeHTTP rl snk r nxt wld) =
           [r, redirectTarget r accel
                 (case ParseInt rs of Inl e \<Rightarrow> ctxBucket r | Inr n \<Rightarrow> Some uid)] \<and>
         (\<forall>n. ParseInt rs = Inr n \<longrightarrow>
            (\<exists>tb. limiters (handler (ServeHTTP rl snk r nxt wld)) uid = Some tb \<and> rate tb = n))"
proof -
  obtain ctx rl1 wld1 where a: "attachBucket uid rs r rl wld = (ctx, rl1, wld1)"
    by (cases "attachBucket uid rs r rl wld")
  have ctx: "ctx = (case ParseInt rs of Inl e \<Rightarrow> ctxBucket r | Inr n \<Rightarrow> Some uid)"
    using attachBucket_ctx [of uid rs r rl wld] a uid(2) by simp
  have reg: "\<forall>n. ParseInt rs = Inr n \<longrightarrow> (\<exists>tb. limiters rl1 uid = Some tb \<and> rate tb = n)"
    using attachBucket_registry [OF uid(2), of rs _ r rl wld] a by simp
  obtain ops2 err2 where n2: "nxt (redirectTarget r accel ctx) = (ops2, err2)"
    by (cases "nxt (redirectTarget r accel ctx)")
  have s: "ServeHTTP rl snk r nxt wld =
      \<lparr>ret = err2,
       out = fold sink_apply ops2 (ResponseWriter (fold crw_apply ops (newCapture snk))),
       handler = rl1, world = wld1, dispatched = [r, redirectTarget r accel ctx]\<rparr>"
    using first accel uid rs a n2 by (simp add: ServeHTTP_def Let_def)
  show ?thesis
    using ctx reg by (simp add: s)
qed

theorem redirect_attaches_iff_rate_parses_witness:
  "dispatched (ServeHTTP ex_rl ex_sink ex_request (ex_backend ''abc'') ex_world) =
     [ex_request, redirectTarget ex_request ''/f'' None] \<and>
   dispatched (ServeHTTP ex_rl ex_sink ex_request (ex_backend ''1048576'') ex_world) =
     [ex_request, redirectTarget ex_request ''/f'' (Some ''u1'')] \<and>
   (\<exists>tb. limiters (handler (ServeHTTP ex_rl ex_sink ex_request (ex_backend ''1048576'') ex_world))
          ''u1'' = Some tb \<and> rate tb = 1048576)"
proof -
  have first: "ex_backend rateStr ex_request = (ex_signal rateStr, None)" for rateStr
    by (simp add: ex_backend_def ex_request_def)
  have names: "HeaderUserID ex_rl = ''X-Accel-User-ID''"
    "HeaderRateLimit ex_rl = ''X-Accel-RateLimit''"
    by (simp_all add: ex_rl_def)
  have accel: "Header_Get (header (fold crw_apply (ex_signal rateStr) (newCapture ex_sink)))
      ''X-Accel-Redirect'' = ''/f''" for rateStr
    by (rule ex_signal_headers)
  have uid: "Header_Get (header (fold crw_apply (ex_signal rateStr) (newCapture ex_sink)))
      (HeaderUserID ex_rl) = ''u1''" for rateStr
    unfolding names by (rule ex_signal_headers)
  have rs: "Header_Get (header (fold crw_apply (ex_signal rateStr) (newCapture ex_sink)))
      (HeaderRateLimit ex_rl) = rateStr" for rateStr
    unfolding names by (rule ex_signal_headers)
  have ne: "''/f'' \<noteq> []" "''u1'' \<noteq> []"
    by simp_all
  have ctx0: "ctxBucket ex_request = None"
    by (simp add: ex_request_def)
  show ?thesis
    using redirect_attaches_iff_rate_parses
        [where nxt = "ex_backend ''abc''" and r = ex_request and rl = ex_rl
          and snk = ex_sink and wld = ex_world,
          OF first [of "''abc''"] accel [of "''abc''"] ne(1) uid [of "''abc''"] ne(2)
          rs [of "''abc''"]]
      redirect_attaches_iff_rate_parses
        [where nxt = "ex_backend ''1048576''" and r = ex_request and rl = ex_rl
          and snk = ex_sink and wld = ex_world,
          OF first [of "''1048576''"] accel [of "''1048576''"] ne(1) uid [of "''1048576''"] ne(2)
          rs [of "''1048576''"]]
    by (simp add: ParseInt_examples ctx0)
qed

end
